theory Spec2Isabelle
  imports Main "HOL-Library.Sublist"
begin

section \<open>Python string primitives\<close>

text \<open>
  The field formats of TreeLine (fieldformat.py, nodeformat.py) are string transformers.
  A Python \<open>str\<close> is modelled by \<open>string\<close> (a list of 8-bit characters), which
  covers the code points 0 to 255; every function below is the list version of the
  \<open>str\<close> method the source calls.

  \<open>py_replace old new s\<close> is \<open>s.replace(old, new)\<close>: a left-to-right scan that
  replaces non-overlapping occurrences (an empty \<open>old\<close> matches before every character
  and at the end).
\<close>

fun py_replace :: "string \<Rightarrow> string \<Rightarrow> string \<Rightarrow> string" where
  "py_replace [] new s = new @ concat (map (\<lambda>c. c # new) s)"
| "py_replace (a # old) new [] = []"
| "py_replace (a # old) new (c # cs) =
     (if prefix (a # old) (c # cs) then new @ py_replace (a # old) new (drop (length old) cs)
      else c # py_replace (a # old) new cs)"

text \<open>
  \<open>py_split sep s\<close> is \<open>s.split(sep)\<close> for a non-empty separator (the only call of the
  source passes \<open>editSep\<close>, the constant \<open>'/'\<close>).
\<close>

fun py_split :: "string \<Rightarrow> string \<Rightarrow> string list" where
  "py_split sep [] = [[]]"
| "py_split sep (c # cs) =
     (if sep \<noteq> [] \<and> prefix sep (c # cs) then [] # py_split sep (drop (length sep) (c # cs))
      else (case py_split sep cs of [] \<Rightarrow> [[c]] | p # ps \<Rightarrow> (c # p) # ps))"

text \<open>\<open>before_first sep s\<close> is \<open>s.split(sep, 1)[0]\<close>: the text before the first \<open>sep\<close>.\<close>

fun before_first :: "string \<Rightarrow> string \<Rightarrow> string" where
  "before_first sep [] = []"
| "before_first sep (c # cs) =
     (if sep \<noteq> [] \<and> prefix sep (c # cs) then [] else c # before_first sep cs)"

text \<open>\<open>py_join sep xs\<close> is \<open>sep.join(xs)\<close>.\<close>

fun py_join :: "string \<Rightarrow> string list \<Rightarrow> string" where
  "py_join sep [] = []"
| "py_join sep [x] = x"
| "py_join sep (x # y # ys) = x @ sep @ py_join sep (y # ys)"

text \<open>
  \<open>str.strip()\<close> removes the characters for which \<open>str.isspace()\<close> holds from both ends;
  below code point 256 these are the twelve characters of \<open>whitespace\<close>.
\<close>

definition whitespace :: "char list" where
  "whitespace = [CHR 0x09, CHR 0x0A, CHR 0x0B, CHR 0x0C, CHR 0x0D, CHR 0x1C, CHR 0x1D,
     CHR 0x1E, CHR 0x1F, CHR '' '', CHR 0x85, CHR 0xA0]"

definition py_isspace :: "char \<Rightarrow> bool" where
  "py_isspace c = (c \<in> set whitespace)"

definition py_strip :: "string \<Rightarrow> string" where
  "py_strip s = rev (dropWhile py_isspace (rev (dropWhile py_isspace s)))"

text \<open>
  \<open>str.lower()\<close> on the code points below 256: the letters A to Z and the accented
  capitals 0xC0 to 0xDE (without the multiplication sign 0xD7) move up by 32.
\<close>

definition py_lower_char :: "char \<Rightarrow> char" where
  "py_lower_char c =
     (let n = (of_char c :: nat)
      in if (65 \<le> n \<and> n \<le> 90) \<or> (192 \<le> n \<and> n \<le> 222 \<and> n \<noteq> 215)
         then char_of (n + 32) else c)"

definition py_lower :: "string \<Rightarrow> string" where
  "py_lower s = map py_lower_char s"

text \<open>
  Python compares strings lexicographically by code point; a tuple comparison looks at
  the second components only when the first ones are equal.
\<close>

fun str_less :: "string \<Rightarrow> string \<Rightarrow> bool" where
  "str_less [] [] = False"
| "str_less [] (y # ys) = True"
| "str_less (x # xs) [] = False"
| "str_less (x # xs) (y # ys) =
     (if x = y then str_less xs ys else (of_char x :: nat) < of_char y)"

section \<open>xml.sax.saxutils and markup removal\<close>

text \<open>
  \<open>escape\<close> and \<open>unescape\<close> of xml.sax.saxutils with no extra entities: three calls of
  \<open>str.replace\<close> each, the ampersand first when escaping and last when unescaping.
\<close>

definition escape :: "string \<Rightarrow> string" where
  "escape data =
     py_replace ''<'' ''&lt;'' (py_replace ''>'' ''&gt;'' (py_replace ''&'' ''&amp;'' data))"

definition unescape :: "string \<Rightarrow> string" where
  "unescape data =
     py_replace ''&amp;'' ''&'' (py_replace ''&gt;'' ''>'' (py_replace ''&lt;'' ''<'' data))"


text \<open>
  \<open>_stripTagRe.sub('', text)\<close> with \<open>_stripTagRe = re.compile('<.*?>')\<close>: scanning from
  the left, a \<open><\<close> that is followed on the same line by a \<open>>\<close> is deleted together with
  everything up to the first such \<open>>\<close> (the dot of the pattern does not match a line
  feed); any other character is kept.
\<close>

fun closes_tag :: "string \<Rightarrow> bool" where
  "closes_tag [] = False"
| "closes_tag (c # cs) = (c = CHR ''>'' \<or> (c \<noteq> CHR 0x0A \<and> closes_tag cs))"

fun stripTags :: "string \<Rightarrow> string" and skipTag :: "string \<Rightarrow> string" where
  "stripTags [] = []"
| "stripTags (c # cs) =
     (if c = CHR ''<'' \<and> closes_tag cs then skipTag cs else c # stripTags cs)"
| "skipTag [] = []"
| "skipTag (c # cs) = (if c = CHR ''>'' then stripTags cs else skipTag cs)"

definition removeMarkup :: "string \<Rightarrow> string" where
  "removeMarkup text0 = unescape (stripTags text0)"

section \<open>The field variants\<close>

text \<open>
  One record holds the attributes of a field object; \<open>typeName\<close> is its class. The
  attributes \<open>choiceList\<close>, \<open>choices\<close> and \<open>outputSep\<close> exist on the Choice family only and
  are set by its \<open>setFormat\<close>.
\<close>

datatype fieldType =
  TextField | HtmlTextField | OneLineTextField | SpacedTextField | NumberField
  | BooleanField | ChoiceField | CombinationField | RegularExpressionField

record field =
  name :: string
  typeName :: fieldType
  format :: string
  fld_prefix :: string
  fld_suffix :: string
  evalHtml :: bool
  choiceList :: "string list"
  choices :: "string set"
  outputSep :: string

datatype error = ValueError | IndexError | ReError

text \<open>
  The modules gennumber and genboolean and Python's \<open>re\<close> are not part of the sources;
  the field operations take them as a parameter. \<open>None\<close> is the \<open>ValueError\<close> that the
  number and boolean classes raise on text they cannot read.
  \<^item> \<open>numStr s fmt\<close> is \<open>GenNumber(s).numStr(fmt)\<close>,
    \<open>numSetFromStr e fmt\<close> is \<open>repr(GenNumber().setFromStr(e, fmt))\<close>,
    \<open>numValue s\<close> is \<open>GenNumber(s).num\<close>;
  \<^item> \<open>boolStr s fmt\<close> is \<open>GenBoolean(s).boolStr(fmt)\<close>,
    \<open>boolSetFromStr e fmt\<close> is \<open>repr(GenBoolean().setFromStr(e, fmt))\<close>,
    \<open>boolRepr e\<close> is \<open>repr(GenBoolean(e))\<close>, \<open>boolValue s\<close> is \<open>GenBoolean(s).value\<close>;
  \<^item> \<open>re_compile p\<close> tells whether \<open>re.compile(p)\<close> succeeds, and \<open>re_match p s\<close> whether
    \<open>re.match(p, s)\<close> finds a match (for a pattern that compiles).
\<close>

record 'n services =
  numStr :: "string \<Rightarrow> string \<Rightarrow> string option"
  numSetFromStr :: "string \<Rightarrow> string \<Rightarrow> string option"
  numValue :: "string \<Rightarrow> 'n option"
  boolStr :: "string \<Rightarrow> string \<Rightarrow> string option"
  boolSetFromStr :: "string \<Rightarrow> string \<Rightarrow> string option"
  boolRepr :: "string \<Rightarrow> string option"
  boolValue :: "string \<Rightarrow> bool option"
  re_compile :: "string \<Rightarrow> bool"
  re_match :: "string \<Rightarrow> string \<Rightarrow> bool"


definition editSep :: string where
  "editSep = ''/''"

subsection \<open>Class attributes\<close>

definition defaultFormat :: "fieldType \<Rightarrow> string" where
  "defaultFormat t =
     (case t of NumberField \<Rightarrow> ''#.##'' | ChoiceField \<Rightarrow> ''1/2/3/4''
      | CombinationField \<Rightarrow> ''1/2/3/4'' | BooleanField \<Rightarrow> ''yes/no''
      | RegularExpressionField \<Rightarrow> ''.*'' | _ \<Rightarrow> [])"

definition evalHtmlDefault :: "fieldType \<Rightarrow> bool" where
  "evalHtmlDefault t = (t = HtmlTextField)"

definition fixEvalHtmlSetting :: "fieldType \<Rightarrow> bool" where
  "fixEvalHtmlSetting t =
     (t \<noteq> ChoiceField \<and> t \<noteq> CombinationField \<and> t \<noteq> RegularExpressionField)"

subsection \<open>ChoiceField.splitText and CombinationField.joinText\<close>

text \<open>
  The loop of \<open>splitText\<close> over the pieces of the split text, with \<open>result\<close> as its
  accumulator; \<open>splitText_item\<close> is \<open>text.strip().replace('\\0', self.editSep)\<close>.
\<close>

definition splitText_item :: "string \<Rightarrow> string" where
  "splitText_item t = py_replace [CHR 0x00] editSep (py_strip t)"

fun splitText_loop :: "string list \<Rightarrow> string list \<Rightarrow> string list" where
  "splitText_loop result [] = result"
| "splitText_loop result (t # ts) =
     (let text1 = splitText_item t
      in if text1 \<noteq> [] \<and> text1 \<notin> set result then splitText_loop (result @ [text1]) ts
         else splitText_loop result ts)"

definition splitText :: "string \<Rightarrow> string list" where
  "splitText textStr =
     splitText_loop [] (py_split editSep (py_replace (editSep @ editSep) [CHR 0x00] textStr))"

definition joinText :: "string list \<Rightarrow> string" where
  "joinText textList =
     py_join editSep (map (\<lambda>t. py_replace editSep (editSep @ editSep) t) textList)"

definition sortedSelections :: "field \<Rightarrow> string \<Rightarrow> string list \<times> bool" where
  "sortedSelections f inText =
     (let selections = set (splitText inText);
          result = filter (\<lambda>t. t \<in> selections) (choiceList f)
      in (result, card selections = length result))"

subsection \<open>setFormat and changeType\<close>

definition TextField_setFormat :: "field \<Rightarrow> string \<Rightarrow> field" where
  "TextField_setFormat f fmt = f\<lparr>format := fmt\<rparr>"

definition ChoiceField_setFormat :: "field \<Rightarrow> string \<Rightarrow> field" where
  "ChoiceField_setFormat f fmt =
     (let f1 = TextField_setFormat f fmt;
          f2 = f1\<lparr>choiceList := splitText (format f1)\<rparr>
      in if evalHtml f2 then f2\<lparr>choices := set (choiceList f2)\<rparr>
         else f2\<lparr>choices := set (map escape (choiceList f2))\<rparr>)"

definition CombinationField_setFormat :: "field \<Rightarrow> string \<Rightarrow> field" where
  "CombinationField_setFormat f fmt =
     (let f1 = TextField_setFormat f fmt;
          fmt1 = (if \<not> evalHtml f1 then escape fmt else fmt);
          f2 = f1\<lparr>choiceList := splitText fmt1\<rparr>
      in f2\<lparr>choices := set (choiceList f2), outputSep := []\<rparr>)"

definition RegularExpressionField_setFormat ::
  "'n services \<Rightarrow> field \<Rightarrow> string \<Rightarrow> error + field" where
  "RegularExpressionField_setFormat ext f fmt =
     (if \<not> re_compile ext fmt then Inl ValueError else Inr (TextField_setFormat f fmt))"

definition setFormat :: "'n services \<Rightarrow> field \<Rightarrow> string \<Rightarrow> error + field" where
  "setFormat ext f fmt =
     (case typeName f of
        ChoiceField \<Rightarrow> Inr (ChoiceField_setFormat f fmt)
      | BooleanField \<Rightarrow> Inr (ChoiceField_setFormat f fmt)
      | CombinationField \<Rightarrow> Inr (CombinationField_setFormat f fmt)
      | RegularExpressionField \<Rightarrow> RegularExpressionField_setFormat ext f fmt
      | _ \<Rightarrow> Inr (TextField_setFormat f fmt))"

text \<open>
  \<open>TextField.__init__\<close> without format data, and \<open>changeType\<close>, which swaps the class,
  installs the new class's default format and resets \<open>evalHtml\<close> where the class fixes it.
\<close>

definition newTextField :: "string \<Rightarrow> field" where
  "newTextField nm =
     \<lparr>name = nm, typeName = TextField, format = defaultFormat TextField, fld_prefix = [],
      fld_suffix = [], evalHtml = evalHtmlDefault TextField, choiceList = [], choices = {},
      outputSep = []\<rparr>"

definition changeType :: "'n services \<Rightarrow> field \<Rightarrow> fieldType \<Rightarrow> error + field" where
  "changeType ext f newType =
     (case setFormat ext (f\<lparr>typeName := newType\<rparr>) (defaultFormat newType) of
        Inl e \<Rightarrow> Inl e
      | Inr f1 \<Rightarrow>
          Inr (if fixEvalHtmlSetting newType then f1\<lparr>evalHtml := evalHtmlDefault newType\<rparr>
               else f1))"

subsection \<open>formatOutput\<close>











subsection \<open>formatEditorText\<close>

definition TextField_formatEditorText :: "field \<Rightarrow> string \<Rightarrow> string" where
  "TextField_formatEditorText f storedText = storedText"

definition OneLineTextField_formatEditorText :: "field \<Rightarrow> string \<Rightarrow> string" where
  "OneLineTextField_formatEditorText f storedText = before_first ''<br />'' storedText"

definition SpacedTextField_formatEditorText :: "field \<Rightarrow> string \<Rightarrow> string" where
  "SpacedTextField_formatEditorText f storedText = unescape storedText"

definition NumberField_formatEditorText ::
  "'n services \<Rightarrow> field \<Rightarrow> string \<Rightarrow> error + string" where
  "NumberField_formatEditorText ext f storedText =
     (if storedText = [] then Inr []
      else (case numStr ext storedText (format f) of
              Some t \<Rightarrow> Inr t | None \<Rightarrow> Inl ValueError))"

definition ChoiceField_formatEditorText :: "field \<Rightarrow> string \<Rightarrow> error + string" where
  "ChoiceField_formatEditorText f storedText =
     (if storedText \<noteq> [] \<and> storedText \<notin> choices f then Inl ValueError
      else if evalHtml f then Inr storedText
      else Inr (unescape storedText))"

definition CombinationField_formatEditorText :: "field \<Rightarrow> string \<Rightarrow> error + string" where
  "CombinationField_formatEditorText f storedText =
     (let selections = set (splitText storedText)
      in if selections \<subseteq> choices f
         then (if evalHtml f then Inr storedText else Inr (unescape storedText))
         else Inl ValueError)"

definition BooleanField_formatEditorText ::
  "'n services \<Rightarrow> field \<Rightarrow> string \<Rightarrow> error + string" where
  "BooleanField_formatEditorText ext f storedText =
     (if storedText = [] then Inr []
      else (case boolStr ext storedText (format f) of
              Some t \<Rightarrow> Inr t | None \<Rightarrow> Inl ValueError))"

definition RegularExpressionField_formatEditorText ::
  "'n services \<Rightarrow> field \<Rightarrow> string \<Rightarrow> error + string" where
  "RegularExpressionField_formatEditorText ext f storedText =
     (let storedText1 = (if \<not> evalHtml f then unescape storedText else storedText)
      in if \<not> re_compile ext (format f) then Inl ReError
         else if storedText1 = [] \<or> re_match ext (format f) storedText1 then Inr storedText1
         else Inl ValueError)"

definition formatEditorText :: "'n services \<Rightarrow> field \<Rightarrow> string \<Rightarrow> error + string" where
  "formatEditorText ext f storedText =
     (case typeName f of
        TextField \<Rightarrow> Inr (TextField_formatEditorText f storedText)
      | HtmlTextField \<Rightarrow> Inr (TextField_formatEditorText f storedText)
      | OneLineTextField \<Rightarrow> Inr (OneLineTextField_formatEditorText f storedText)
      | SpacedTextField \<Rightarrow> Inr (SpacedTextField_formatEditorText f storedText)
      | NumberField \<Rightarrow> NumberField_formatEditorText ext f storedText
      | BooleanField \<Rightarrow> BooleanField_formatEditorText ext f storedText
      | ChoiceField \<Rightarrow> ChoiceField_formatEditorText f storedText
      | CombinationField \<Rightarrow> CombinationField_formatEditorText f storedText
      | RegularExpressionField \<Rightarrow> RegularExpressionField_formatEditorText ext f storedText)"

subsection \<open>storedText and storedTextFromTitle\<close>

definition TextField_storedText :: "field \<Rightarrow> string \<Rightarrow> string" where
  "TextField_storedText f editorText = editorText"

definition SpacedTextField_storedText :: "field \<Rightarrow> string \<Rightarrow> string" where
  "SpacedTextField_storedText f editorText = escape editorText"

definition NumberField_storedText :: "'n services \<Rightarrow> field \<Rightarrow> string \<Rightarrow> error + string" where
  "NumberField_storedText ext f editorText =
     (if editorText = [] then Inr []
      else (case numSetFromStr ext editorText (format f) of
              Some t \<Rightarrow> Inr t | None \<Rightarrow> Inl ValueError))"

definition ChoiceField_storedText :: "field \<Rightarrow> string \<Rightarrow> error + string" where
  "ChoiceField_storedText f editorText =
     (let editorText1 = (if \<not> evalHtml f then escape editorText else editorText)
      in if editorText1 = [] \<or> editorText1 \<in> choices f then Inr editorText1
         else Inl ValueError)"

definition CombinationField_storedText :: "field \<Rightarrow> string \<Rightarrow> error + string" where
  "CombinationField_storedText f editorText =
     (let editorText1 = (if \<not> evalHtml f then escape editorText else editorText)
      in case sortedSelections f editorText1 of
           (selections, valid) \<Rightarrow>
             if \<not> valid then Inl ValueError else Inr (joinText selections))"

definition BooleanField_storedText :: "'n services \<Rightarrow> field \<Rightarrow> string \<Rightarrow> error + string" where
  "BooleanField_storedText ext f editorText =
     (if editorText = [] then Inr []
      else (case boolSetFromStr ext editorText (format f) of
              Some t \<Rightarrow> Inr t
            | None \<Rightarrow> (case boolRepr ext editorText of
                         Some t \<Rightarrow> Inr t | None \<Rightarrow> Inl ValueError)))"

definition RegularExpressionField_storedText ::
  "'n services \<Rightarrow> field \<Rightarrow> string \<Rightarrow> error + string" where
  "RegularExpressionField_storedText ext f editorText =
     (if \<not> re_compile ext (format f) then Inl ReError
      else if editorText = [] \<or> re_match ext (format f) editorText
      then (if evalHtml f then Inr editorText else Inr (escape editorText))
      else Inl ValueError)"

definition storedText :: "'n services \<Rightarrow> field \<Rightarrow> string \<Rightarrow> error + string" where
  "storedText ext f editorText =
     (case typeName f of
        TextField \<Rightarrow> Inr (TextField_storedText f editorText)
      | HtmlTextField \<Rightarrow> Inr (TextField_storedText f editorText)
      | OneLineTextField \<Rightarrow> Inr (TextField_storedText f editorText)
      | SpacedTextField \<Rightarrow> Inr (SpacedTextField_storedText f editorText)
      | NumberField \<Rightarrow> NumberField_storedText ext f editorText
      | BooleanField \<Rightarrow> BooleanField_storedText ext f editorText
      | ChoiceField \<Rightarrow> ChoiceField_storedText f editorText
      | CombinationField \<Rightarrow> CombinationField_storedText f editorText
      | RegularExpressionField \<Rightarrow> RegularExpressionField_storedText ext f editorText)"

text \<open>
  \<open>TextField.storedTextFromTitle\<close> escapes the title text before storing it; the
  classes below \<open>HtmlTextField\<close>, and \<open>SpacedTextField\<close>, store it as it is. Both call the
  \<open>storedText\<close> of the object's own class.
\<close>

definition storedTextFromTitle :: "'n services \<Rightarrow> field \<Rightarrow> string \<Rightarrow> error + string" where
  "storedTextFromTitle ext f titleText =
     (case typeName f of
        TextField \<Rightarrow> storedText ext f (escape titleText)
      | OneLineTextField \<Rightarrow> storedText ext f (escape titleText)
      | _ \<Rightarrow> storedText ext f titleText)"

subsection \<open>compareValue and sortKey\<close>

type_synonym data = "string \<rightharpoonup> string"

text \<open>\<open>data_get d k\<close> is \<open>node.data.get(k, '')\<close>.\<close>

definition data_get :: "data \<Rightarrow> string \<Rightarrow> string" where
  "data_get d k = (case d k of None \<Rightarrow> [] | Some v \<Rightarrow> v)"

datatype 'n compareVal = NumVal 'n | BoolVal bool | TextVal string

definition TextField_compareValue :: "field \<Rightarrow> data \<Rightarrow> 'n compareVal" where
  "TextField_compareValue f d = TextVal (py_lower (removeMarkup (data_get d (name f))))"

definition NumberField_compareValue ::
  "('n::zero) services \<Rightarrow> field \<Rightarrow> data \<Rightarrow> 'n compareVal" where
  "NumberField_compareValue ext f d =
     (case numValue ext (data_get d (name f)) of Some n \<Rightarrow> NumVal n | None \<Rightarrow> NumVal 0)"

definition BooleanField_compareValue :: "'n services \<Rightarrow> field \<Rightarrow> data \<Rightarrow> 'n compareVal" where
  "BooleanField_compareValue ext f d =
     (case boolValue ext (data_get d (name f)) of
        Some b \<Rightarrow> BoolVal b | None \<Rightarrow> BoolVal False)"

definition compareValue :: "('n::zero) services \<Rightarrow> field \<Rightarrow> data \<Rightarrow> 'n compareVal" where
  "compareValue ext f d =
     (case typeName f of
        NumberField \<Rightarrow> NumberField_compareValue ext f d
      | BooleanField \<Rightarrow> BooleanField_compareValue ext f d
      | _ \<Rightarrow> TextField_compareValue f d)"

definition sortKey :: "('n::zero) services \<Rightarrow> field \<Rightarrow> data \<Rightarrow> string \<times> 'n compareVal" where
  "sortKey ext f d =
     (case typeName f of
        NumberField \<Rightarrow> (''20_num'', NumberField_compareValue ext f d)
      | BooleanField \<Rightarrow> (''30_bool'', BooleanField_compareValue ext f d)
      | _ \<Rightarrow> (''80_text'', compareValue ext f d))"

text \<open>
  Python's \<open><\<close> on two sort keys: the ranks decide when they differ; the values are
  compared (by \<open>val_less\<close>, the comparison of the values' own type) only under equal ranks.
\<close>

definition key_less ::
  "('v \<Rightarrow> 'v \<Rightarrow> bool) \<Rightarrow> string \<times> 'v \<Rightarrow> string \<times> 'v \<Rightarrow> bool" where
  "key_less val_less k1 k2 =
     (if fst k1 \<noteq> fst k2 then str_less (fst k1) (fst k2)
      else if snd k1 \<noteq> snd k2 then val_less (snd k1) (snd k2) else False)"

section \<open>NodeFormat.extractTitleData\<close>

text \<open>
  A parsed title line is a list of segments: field objects and literal text. The
  first loop of \<open>extractTitleData\<close> collects the fields, builds the pattern and joins the
  literal text; each of the three results is one function here. The pattern is kept as
  the list of its parts: \<open>Group\<close> is \<open>(.*)\<close>, and \<open>Literal s\<close> is \<open>re.escape(s)\<close>, the
  pattern that matches exactly the text \<open>s\<close>.
\<close>

datatype segment = FieldSeg field | TextSeg string

datatype patItem = Group | Literal string

fun titleFields :: "segment list \<Rightarrow> field list" where
  "titleFields [] = []"
| "titleFields (FieldSeg f # segs) = f # titleFields segs"
| "titleFields (TextSeg s # segs) = titleFields segs"

fun titlePattern :: "segment list \<Rightarrow> patItem list" where
  "titlePattern [] = []"
| "titlePattern (FieldSeg f # segs) = Group # titlePattern segs"
| "titlePattern (TextSeg s # segs) = Literal s # titlePattern segs"

fun titleExtraText :: "segment list \<Rightarrow> string" where
  "titleExtraText [] = []"
| "titleExtraText (FieldSeg f # segs) = titleExtraText segs"
| "titleExtraText (TextSeg s # segs) = s @ titleExtraText segs"

text \<open>
  \<open>re.match\<close> on such a pattern, returning the groups. A group is greedy: it first takes
  the whole rest of the line (the dot does not match a line feed) and gives characters
  back one at a time until the rest of the pattern matches. The match is anchored at
  the start only: when the pattern is used up, whatever text remains is ignored.
\<close>

fun try_group ::
  "(string \<Rightarrow> string list option) \<Rightarrow> string \<Rightarrow> nat \<Rightarrow> string list option" where
  "try_group cont s 0 = (case cont s of Some gs \<Rightarrow> Some ([] # gs) | None \<Rightarrow> None)"
| "try_group cont s (Suc k) =
     (case cont (drop (Suc k) s) of
        Some gs \<Rightarrow> Some (take (Suc k) s # gs)
      | None \<Rightarrow> try_group cont s k)"

definition line_length :: "string \<Rightarrow> nat" where
  "line_length s = length (takeWhile (\<lambda>c. c \<noteq> CHR 0x0A) s)"

primrec re_match_title :: "patItem list \<Rightarrow> string \<Rightarrow> string list option" where
  "re_match_title [] = (\<lambda>s. Some [])"
| "re_match_title (p # ps) =
     (\<lambda>s. case p of
        Literal l \<Rightarrow> if prefix l s then re_match_title ps (drop (length l) s) else None
      | Group \<Rightarrow> try_group (re_match_title ps) s (line_length s))"

text \<open>
  The spec speaks of an anchored full match. \<open>re_fullmatch_title\<close> follows these words
  (it is \<open>re.fullmatch\<close>: the pattern has to use up the whole string); the source calls
  \<open>re.match\<close>.
\<close>

primrec re_fullmatch_title :: "patItem list \<Rightarrow> string \<Rightarrow> string list option" where
  "re_fullmatch_title [] = (\<lambda>s. if s = [] then Some [] else None)"
| "re_fullmatch_title (p # ps) =
     (\<lambda>s. case p of
        Literal l \<Rightarrow> if prefix l s then re_fullmatch_title ps (drop (length l) s) else None
      | Group \<Rightarrow> try_group (re_fullmatch_title ps) s (line_length s))"

text \<open>\<open>fill pattern groups\<close> is the text that the pattern matches with these groups.\<close>

fun fill :: "patItem list \<Rightarrow> string list \<Rightarrow> string" where
  "fill [] gs = []"
| "fill (Literal l # ps) gs = l @ fill ps gs"
| "fill (Group # ps) [] = fill ps []"
| "fill (Group # ps) (g # gs) = g @ fill ps gs"

definition n_groups :: "patItem list \<Rightarrow> nat" where
  "n_groups pat = length (filter (\<lambda>p. p = Group) pat)"

text \<open>
  The call returns a boolean or raises; the dictionary it was given is changed in
  place, so the result carries the dictionary as the call leaves it.
\<close>

datatype outcome = Returns bool | Raises error

text \<open>
  The loop of the match branch: \<open>data[field.name] = field.storedTextFromTitle(text)\<close>
  for each field and its group. A \<open>ValueError\<close> leaves the loop through the handler that
  returns \<open>False\<close>.
\<close>

fun assignGroups ::
  "'n services \<Rightarrow> field list \<Rightarrow> string list \<Rightarrow> data \<Rightarrow> outcome \<times> data" where
  "assignGroups ext [] gs d = (Returns True, d)"
| "assignGroups ext (f # fs) [] d = (Raises IndexError, d)"
| "assignGroups ext (f # fs) (g # gs) d =
     (case storedTextFromTitle ext f g of
        Inl e \<Rightarrow> (if e = ValueError then Returns False else Raises e, d)
      | Inr t \<Rightarrow> assignGroups ext fs gs (d(name f \<mapsto> t)))"

text \<open>The loop \<open>for field in fields[1:]: data[field.name] = ''\<close>.\<close>

fun clearFields :: "field list \<Rightarrow> data \<Rightarrow> data" where
  "clearFields [] d = d"
| "clearFields (f # fs) d = clearFields fs (d(name f \<mapsto> []))"

definition extractTitleData ::
  "'n services \<Rightarrow> segment list \<Rightarrow> string \<Rightarrow> data \<Rightarrow> outcome \<times> data" where
  "extractTitleData ext titleLine titleString d =
     (let fields = titleFields titleLine;
          pattern = titlePattern titleLine;
          extraText = titleExtraText titleLine
      in case re_match_title pattern titleString of
           Some groups \<Rightarrow> assignGroups ext fields groups d
         | None \<Rightarrow>
             if py_strip extraText = [] then
               (case fields of
                  [] \<Rightarrow> (Raises IndexError, d)
                | f0 # others \<Rightarrow>
                    (case storedTextFromTitle ext f0 titleString of
                       Inl e \<Rightarrow> (if e = ValueError then Returns False else Raises e, d)
                     | Inr t \<Rightarrow> (Returns True, clearFields others (d(name f0 \<mapsto> t)))))
             else (Returns False, d))"

section \<open>A sample instance of the services\<close>

text \<open>
  The closed examples below need a concrete \<open>re.match\<close>. \<open>basic_match\<close> is \<open>re.match\<close>
  on the patterns built from ordinary characters, the dot and a star after a
  character or dot; \<open>basic_pattern\<close> recognises these patterns. The sample number and
  boolean services read no text at all.
\<close>

datatype atom = AnyChar | Ch char

definition mk_atom :: "char \<Rightarrow> atom" where
  "mk_atom c = (if c = CHR ''.'' then AnyChar else Ch c)"

fun parse_atoms :: "string \<Rightarrow> (atom \<times> bool) list" where
  "parse_atoms [] = []"
| "parse_atoms [c] = [(mk_atom c, False)]"
| "parse_atoms (c # c1 # cs) =
     (if c1 = CHR ''*'' then (mk_atom c, True) # parse_atoms cs
      else (mk_atom c, False) # parse_atoms (c1 # cs))"

fun atom_ok :: "atom \<Rightarrow> char \<Rightarrow> bool" where
  "atom_ok AnyChar c = (c \<noteq> CHR 0x0A)"
| "atom_ok (Ch x) c = (c = x)"

fun atoms_match :: "(atom \<times> bool) list \<Rightarrow> string \<Rightarrow> bool" where
  "atoms_match [] s = True"
| "atoms_match ((a, False) # as) [] = False"
| "atoms_match ((a, False) # as) (c # cs) = (atom_ok a c \<and> atoms_match as cs)"
| "atoms_match ((a, True) # as) [] = atoms_match as []"
| "atoms_match ((a, True) # as) (c # cs) =
     ((atom_ok a c \<and> atoms_match ((a, True) # as) cs) \<or> atoms_match as (c # cs))"

text \<open>The characters with a meaning of their own in a pattern: \<open>\ ^ $ * + ? { } [ ] | ( )\<close>.\<close>

definition special_chars :: "char list" where
  "special_chars = [CHR 0x5C, CHR 0x5E, CHR 0x24, CHR 0x2A, CHR 0x2B, CHR 0x3F, CHR 0x7B,
     CHR 0x7D, CHR 0x5B, CHR 0x5D, CHR 0x7C, CHR 0x28, CHR 0x29]"

fun basic_pattern :: "string \<Rightarrow> bool" where
  "basic_pattern [] = True"
| "basic_pattern [c] = (c \<notin> set special_chars)"
| "basic_pattern (c # c1 # cs) =
     (c \<notin> set special_chars
      \<and> (if c1 = CHR 0x2A then basic_pattern cs else basic_pattern (c1 # cs)))"

definition basic_match :: "string \<Rightarrow> string \<Rightarrow> bool" where
  "basic_match p s = atoms_match (parse_atoms p) s"

definition sample_services :: "nat services" where
  "sample_services =
     \<lparr>numStr = (\<lambda>s fmt. None), numSetFromStr = (\<lambda>e fmt. None), numValue = (\<lambda>s. None),
      boolStr = (\<lambda>s fmt. None), boolSetFromStr = (\<lambda>e fmt. None), boolRepr = (\<lambda>e. None),
      boolValue = (\<lambda>s. None), re_compile = basic_pattern, re_match = basic_match\<rparr>"

text \<open>
  What a pattern of this kind says, apart from any matching procedure: a text is
  described by the pattern when it is a concatenation of pieces, one for each atom, where
  the piece of a plain atom is one character the atom admits and the piece of a starred
  atom is any number of them. \<open>atoms_fullmatch\<close> is \<open>re.fullmatch\<close> on these patterns:
  the matcher with the end of the text as the end of the match.
\<close>

fun piece_ok :: "atom \<times> bool \<Rightarrow> string \<Rightarrow> bool" where
  "piece_ok (a, True) w = list_all (atom_ok a) w"
| "piece_ok (a, False) w = (length w = 1 \<and> list_all (atom_ok a) w)"

fun atoms_fullmatch :: "(atom \<times> bool) list \<Rightarrow> string \<Rightarrow> bool" where
  "atoms_fullmatch [] s = (s = [])"
| "atoms_fullmatch ((a, False) # as) [] = False"
| "atoms_fullmatch ((a, False) # as) (c # cs) = (atom_ok a c \<and> atoms_fullmatch as cs)"
| "atoms_fullmatch ((a, True) # as) [] = atoms_fullmatch as []"
| "atoms_fullmatch ((a, True) # as) (c # cs) =
     ((atom_ok a c \<and> atoms_fullmatch ((a, True) # as) cs) \<or> atoms_fullmatch as (c # cs))"

text \<open>
  \<open>with_basic_re ext\<close> is the services \<open>ext\<close> with this model of \<open>re\<close> as the regular
  expression engine.
\<close>

definition with_basic_re :: "'n services \<Rightarrow> 'n services" where
  "with_basic_re ext = ext\<lparr>re_compile := basic_pattern, re_match := basic_match\<rparr>"


text \<open>
  Sample fields for the closed examples. A Choice or Combination field is a text field
  whose class was changed; \<open>xyzField\<close> is the Combination field with the declared
  choices \<open>x/y/z\<close>.
\<close>

definition xyzField :: field where
  "xyzField = CombinationField_setFormat
     ((newTextField ''Sel'')\<lparr>typeName := CombinationField\<rparr>) ''x/y/z''"

text \<open>
  \<open>choice1234\<close> is a Choice field with the default format, \<open>regexField fmt\<close> a
  RegularExpression field with the format \<open>fmt\<close>, and \<open>priceField\<close> a Number field with
  a prefix and a suffix.
\<close>

definition choice1234 :: field where
  "choice1234 = ChoiceField_setFormat
     ((newTextField ''Tag'')\<lparr>typeName := ChoiceField\<rparr>) ''1/2/3/4''"

definition regexField :: "string \<Rightarrow> field" where
  "regexField fmt = (newTextField ''Code'')\<lparr>typeName := RegularExpressionField, format := fmt\<rparr>"

definition priceField :: field where
  "priceField = (newTextField ''Price'')\<lparr>typeName := NumberField, format := ''#.##'',
     fld_prefix := ''$'', fld_suffix := '' each''\<rparr>"



text \<open>
  Sample title lines: \<open>{*Name*}: {*Tag*}\<close>, \<open>{*Name*} end\<close>, \<open>{*Tag*} {*Name*}\<close> and
  \<open>{*Name*} {*Note*}\<close>, where \<open>Tag\<close> is the Choice field \<open>choice1234\<close> and the others are
  Text fields.
\<close>

definition nameTagTitle :: "segment list" where
  "nameTagTitle = [FieldSeg (newTextField ''Name''), TextSeg '': '', FieldSeg choice1234]"

definition nameEndTitle :: "segment list" where
  "nameEndTitle = [FieldSeg (newTextField ''Name''), TextSeg '' end'']"

definition tagNameTitle :: "segment list" where
  "tagNameTitle = [FieldSeg choice1234, TextSeg '' '', FieldSeg (newTextField ''Name'')]"

definition nameNoteTitle :: "segment list" where
  "nameNoteTitle = [FieldSeg (newTextField ''Name''), TextSeg '' '', FieldSeg (newTextField ''Note'')]"



section \<open>Notions used in the proofs about splitText and joinText\<close>






section \<open>Properties of escape and unescape\<close>



lemma py_replace_nil_iff:
  "new \<noteq> [] \<Longrightarrow> py_replace (a # old) new s = [] \<longleftrightarrow> s = []"
  by (cases s) auto






lemma unescape_nil_iff: "unescape s = [] \<longleftrightarrow> s = []"
  by (simp add: unescape_def py_replace_nil_iff)

section \<open>Properties of the title pattern match\<close>

lemma try_group_Some:
  "try_group cont s n = Some r \<Longrightarrow>
   \<exists>k gs. k \<le> n \<and> cont (drop k s) = Some gs \<and> r = take k s # gs"
proof (induction n)
  case 0
  then show ?case by (auto split: option.splits)
next
  case (Suc n)
  show ?case
  proof (cases "cont (drop (Suc n) s)")
    case None
    with Suc.prems have "try_group cont s n = Some r" by simp
    from Suc.IH [OF this] obtain k gs where
      "k \<le> n" "cont (drop k s) = Some gs" "r = take k s # gs" by blast
    then have "k \<le> Suc n \<and> cont (drop k s) = Some gs \<and> r = take k s # gs" by simp
    then show ?thesis by blast
  next
    case (Some gs)
    with Suc.prems have "r = take (Suc n) s # gs" by simp
    with Some show ?thesis by blast
  qed
qed

lemma try_group_complete:
  "k \<le> n \<Longrightarrow> cont (drop k s) \<noteq> None \<Longrightarrow> try_group cont s n \<noteq> None"
proof (induction n)
  case 0
  then show ?case by (auto split: option.splits)
next
  case (Suc n)
  show ?case
  proof (cases "cont (drop (Suc n) s)")
    case None
    with Suc.prems have "k \<le> n" by (metis le_SucE)
    with Suc None show ?thesis by simp
  next
    case (Some gs)
    then show ?thesis by simp
  qed
qed

lemma take_line: "k \<le> line_length s \<Longrightarrow> CHR 0x0A \<notin> set (take k s)"
proof -
  assume k: "k \<le> line_length s"
  let ?P = "\<lambda>c. c \<noteq> CHR 0x0A"
  have "take k s = take k (takeWhile ?P s @ dropWhile ?P s)" by simp
  also have "\<dots> = take k (takeWhile ?P s)" using k by (simp add: line_length_def del: takeWhile_dropWhile_id)
  finally have "set (take k s) \<subseteq> set (takeWhile ?P s)" by (metis set_take_subset)
  then show ?thesis by (metis (mono_tags, lifting) set_takeWhileD subsetD)
qed

lemma line_length_append: "CHR 0x0A \<notin> set g \<Longrightarrow> length g \<le> line_length (g @ r)"
  by (induction g) (auto simp: line_length_def)

lemma n_groups_title: "n_groups (titlePattern segs) = length (titleFields segs)"
  by (induction segs rule: titleFields.induct) (auto simp: n_groups_def)

lemma re_match_title_sound:
  "re_match_title pat s = Some gs \<Longrightarrow>
   length gs = n_groups pat \<and> (\<forall>g\<in>set gs. CHR 0x0A \<notin> set g) \<and> prefix (fill pat gs) s"
proof (induction pat arbitrary: s gs)
  case Nil
  then show ?case by (simp add: n_groups_def)
next
  case (Cons p ps)
  show ?case
  proof (cases p)
    case Group
    with Cons.prems have "try_group (re_match_title ps) s (line_length s) = Some gs" by simp
    from try_group_Some [OF this] obtain k gs' where
      k: "k \<le> line_length s" and m: "re_match_title ps (drop k s) = Some gs'"
      and gs: "gs = take k s # gs'" by blast
    from Cons.IH [OF m] have ih: "length gs' = n_groups ps"
      "\<forall>g\<in>set gs'. CHR 0x0A \<notin> set g" "prefix (fill ps gs') (drop k s)" by auto
    have "prefix (take k s @ fill ps gs') (take k s @ drop k s)"
      using ih(3) by (simp only: same_prefix_prefix)
    then have "prefix (fill (p # ps) gs) s" using Group gs by simp
    moreover have "length gs = n_groups (p # ps)" using ih(1) gs Group by (simp add: n_groups_def)
    moreover have "\<forall>g\<in>set gs. CHR 0x0A \<notin> set g" using ih(2) gs take_line [OF k] by simp
    ultimately show ?thesis by blast
  next
    case (Literal l)
    with Cons.prems have pl: "prefix l s" and m: "re_match_title ps (drop (length l) s) = Some gs"
      by (auto split: if_splits)
    from Cons.IH [OF m] have ih: "length gs = n_groups ps"
      "\<forall>g\<in>set gs. CHR 0x0A \<notin> set g" "prefix (fill ps gs) (drop (length l) s)" by auto
    from pl obtain r where s: "s = l @ r" by (auto simp: prefix_def)
    with ih(3) have "prefix (fill (p # ps) gs) s" using Literal by simp
    with ih Literal show ?thesis by (simp add: n_groups_def)
  qed
qed

lemma re_match_title_complete:
  "length gs = n_groups pat \<Longrightarrow> \<forall>g\<in>set gs. CHR 0x0A \<notin> set g \<Longrightarrow> prefix (fill pat gs) s
   \<Longrightarrow> re_match_title pat s \<noteq> None"
proof (induction pat arbitrary: s gs)
  case Nil
  then show ?case by simp
next
  case (Cons p ps)
  show ?case
  proof (cases p)
    case Group
    with Cons.prems(1) obtain g gs' where gs: "gs = g # gs'" and len: "length gs' = n_groups ps"
      by (cases gs) (auto simp: n_groups_def)
    from Cons.prems(3) Group gs obtain r where s: "s = g @ fill ps gs' @ r"
      by (auto simp: prefix_def)
    have nl: "CHR 0x0A \<notin> set g" using Cons.prems(2) gs by simp
    have "re_match_title ps (drop (length g) s) \<noteq> None"
      using Cons.IH [of gs' "fill ps gs' @ r"] len Cons.prems(2) gs s by simp
    moreover have "length g \<le> line_length s" using line_length_append [OF nl] s by simp
    ultimately have "try_group (re_match_title ps) s (line_length s) \<noteq> None"
      by (rule try_group_complete [rotated])
    then show ?thesis using Group by simp
  next
    case (Literal l)
    with Cons.prems(3) obtain r where s: "s = l @ fill ps gs @ r" by (auto simp: prefix_def)
    have "re_match_title ps (fill ps gs @ r) \<noteq> None"
      using Cons.IH [of gs "fill ps gs @ r"] Cons.prems(1,2) Literal by (simp add: n_groups_def)
    then show ?thesis using Literal s by simp
  qed
qed

lemma assignGroups_False:
  "assignGroups ext fs gs d = (Returns False, d') \<Longrightarrow>
   \<exists>k. k < length fs \<and> k < length gs
     \<and> storedTextFromTitle ext (fs ! k) (gs ! k) = Inl ValueError
     \<and> assignGroups ext (take k fs) (take k gs) d = (Returns True, d')"
proof (induction ext fs gs d rule: assignGroups.induct)
  case (1 ext gs d)
  then show ?case by simp
next
  case (2 ext f fs d)
  then show ?case by simp
next
  case (3 ext f fs g gs d)
  show ?case
  proof (cases "storedTextFromTitle ext f g")
    case (Inl e)
    with "3.prems" have "e = ValueError" "d' = d" by (auto split: if_splits)
    with Inl have "0 < length (f # fs) \<and> 0 < length (g # gs)
      \<and> storedTextFromTitle ext ((f # fs) ! 0) ((g # gs) ! 0) = Inl ValueError
      \<and> assignGroups ext (take 0 (f # fs)) (take 0 (g # gs)) d = (Returns True, d')" by simp
    then show ?thesis by blast
  next
    case (Inr t)
    with "3.prems" have "assignGroups ext fs gs (d(name f \<mapsto> t)) = (Returns False, d')" by simp
    from "3.IH" [OF Inr this] obtain k where k: "k < length fs" "k < length gs"
      "storedTextFromTitle ext (fs ! k) (gs ! k) = Inl ValueError"
      "assignGroups ext (take k fs) (take k gs) (d(name f \<mapsto> t)) = (Returns True, d')" by blast
    with Inr have "Suc k < length (f # fs) \<and> Suc k < length (g # gs)
      \<and> storedTextFromTitle ext ((f # fs) ! Suc k) ((g # gs) ! Suc k) = Inl ValueError
      \<and> assignGroups ext (take (Suc k) (f # fs)) (take (Suc k) (g # gs)) d = (Returns True, d')"
      by simp
    then show ?thesis by blast
  qed
qed

lemma assignGroups_True_writes:
  "assignGroups ext fs gs d = (Returns True, d') \<Longrightarrow>
   (\<forall>i<length fs. \<exists>t. storedTextFromTitle ext (fs ! i) (gs ! i) = Inr t
        \<and> ((\<forall>j. i < j \<and> j < length fs \<longrightarrow> name (fs ! j) \<noteq> name (fs ! i))
             \<longrightarrow> d' (name (fs ! i)) = Some t))
   \<and> (\<forall>key. key \<notin> name ` set fs \<longrightarrow> d' key = d key)"
proof (induction ext fs gs d rule: assignGroups.induct)
  case (1 ext gs d)
  then show ?case by simp
next
  case (2 ext f fs d)
  then show ?case by simp
next
  case (3 ext f fs g gs d)
  from "3.prems" obtain t where t: "storedTextFromTitle ext f g = Inr t"
    by (cases "storedTextFromTitle ext f g") (auto split: if_splits)
  with "3.prems" have r: "assignGroups ext fs gs (d(name f \<mapsto> t)) = (Returns True, d')"
    by simp
  note ih = "3.IH" [OF t r]
  from ih have keys: "\<forall>key. key \<notin> name ` set fs \<longrightarrow> d' key = (d(name f \<mapsto> t)) key"
    by blast
  have a: "\<forall>i<length (f # fs). \<exists>t. storedTextFromTitle ext ((f # fs) ! i) ((g # gs) ! i) = Inr t
        \<and> ((\<forall>j. i < j \<and> j < length (f # fs) \<longrightarrow> name ((f # fs) ! j) \<noteq> name ((f # fs) ! i))
             \<longrightarrow> d' (name ((f # fs) ! i)) = Some t)"
  proof (intro allI impI)
    fix i assume i: "i < length (f # fs)"
    show "\<exists>t. storedTextFromTitle ext ((f # fs) ! i) ((g # gs) ! i) = Inr t
        \<and> ((\<forall>j. i < j \<and> j < length (f # fs) \<longrightarrow> name ((f # fs) ! j) \<noteq> name ((f # fs) ! i))
             \<longrightarrow> d' (name ((f # fs) ! i)) = Some t)"
    proof (cases i)
      case 0
      have "(\<forall>j. 0 < j \<and> j < length (f # fs) \<longrightarrow> name ((f # fs) ! j) \<noteq> name f)
             \<longrightarrow> d' (name f) = Some t"
      proof
        assume h: "\<forall>j. 0 < j \<and> j < length (f # fs) \<longrightarrow> name ((f # fs) ! j) \<noteq> name f"
        have "name f \<notin> name ` set fs"
        proof
          assume "name f \<in> name ` set fs"
          then obtain x where "x \<in> set fs" "name x = name f" by auto
          then obtain j where "j < length fs" "fs ! j = x" by (auto simp: in_set_conv_nth)
          with h [rule_format, of "Suc j"] \<open>name x = name f\<close> show False by simp
        qed
        with keys show "d' (name f) = Some t" by simp
      qed
      with 0 t show ?thesis by simp
    next
      case (Suc i')
      with i have i': "i' < length fs" by simp
      from ih i' obtain t' where t': "storedTextFromTitle ext (fs ! i') (gs ! i') = Inr t'"
        "(\<forall>j. i' < j \<and> j < length fs \<longrightarrow> name (fs ! j) \<noteq> name (fs ! i'))
             \<longrightarrow> d' (name (fs ! i')) = Some t'" by blast
      have "(\<forall>j. Suc i' < j \<and> j < length (f # fs) \<longrightarrow> name ((f # fs) ! j) \<noteq> name (fs ! i'))
             \<longrightarrow> d' (name (fs ! i')) = Some t'"
      proof
        assume h: "\<forall>j. Suc i' < j \<and> j < length (f # fs) \<longrightarrow> name ((f # fs) ! j) \<noteq> name (fs ! i')"
        have "\<forall>j. i' < j \<and> j < length fs \<longrightarrow> name (fs ! j) \<noteq> name (fs ! i')"
        proof (intro allI impI)
          fix j assume "i' < j \<and> j < length fs"
          with h [rule_format, of "Suc j"] show "name (fs ! j) \<noteq> name (fs ! i')" by simp
        qed
        with t'(2) show "d' (name (fs ! i')) = Some t'" by blast
      qed
      with Suc t'(1) show ?thesis by simp
    qed
  qed
  have b: "\<forall>key. key \<notin> name ` set (f # fs) \<longrightarrow> d' key = d key"
    using keys by auto
  from a b show ?case by blast
qed

lemma clearFields_apply:
  "clearFields fs d k = (if k \<in> name ` set fs then Some [] else d k)"
  by (induction fs arbitrary: d) auto

lemma py_strip_nil_iff: "py_strip s = [] \<longleftrightarrow> (\<forall>c\<in>set s. py_isspace c)"
proof
  assume "py_strip s = []"
  then have "\<forall>x\<in>set (dropWhile py_isspace s). py_isspace x"
    by (simp add: py_strip_def dropWhile_eq_Nil_conv)
  then have "dropWhile py_isspace s = []"
    by (metis hd_dropWhile list.set_sel(1))
  then show "\<forall>c\<in>set s. py_isspace c" by (simp add: dropWhile_eq_Nil_conv)
next
  assume "\<forall>c\<in>set s. py_isspace c"
  then have e: "dropWhile py_isspace s = []" by (simp add: dropWhile_eq_Nil_conv)
  show "py_strip s = []" unfolding py_strip_def e by simp
qed

lemma titleExtraText_set:
  "set (titleExtraText segs) = (\<Union>seg\<in>set segs. case seg of TextSeg s \<Rightarrow> set s | FieldSeg f \<Rightarrow> {})"
  by (induction segs rule: titleExtraText.induct) auto

section \<open>Properties of splitText\<close>

lemma splitText_loop_keeps:
  "distinct res \<Longrightarrow> [] \<notin> set res \<Longrightarrow>
   distinct (splitText_loop res ts) \<and> [] \<notin> set (splitText_loop res ts)"
  by (induction ts arbitrary: res) (auto simp: Let_def)

lemma remdups_skip: "x \<in> set ys \<Longrightarrow> remdups (xs @ x # ys) = remdups (xs @ ys)"
  by (induction xs) auto

lemma splitText_loop_first_seen:
  "distinct res \<Longrightarrow> [] \<notin> set res \<Longrightarrow>
   splitText_loop res ts =
     rev (remdups (rev (res @ filter (\<lambda>t. t \<noteq> [])
        (map splitText_item ts))))"
proof (induction ts arbitrary: res)
  case Nil
  then show ?case by (simp add: distinct_remdups_id)
next
  case (Cons t ts)
  let ?g = splitText_item
  show ?case
  proof (cases "?g t \<noteq> [] \<and> ?g t \<notin> set res")
    case True
    then have "splitText_loop res (t # ts) = splitText_loop (res @ [?g t]) ts"
      by (simp add: Let_def)
    also have "\<dots> = rev (remdups (rev ((res @ [?g t]) @ filter (\<lambda>t. t \<noteq> []) (map ?g ts))))"
      using Cons.prems True by (intro Cons.IH) auto
    finally show ?thesis using True by simp
  next
    case False
    then have eq: "splitText_loop res (t # ts) = splitText_loop res ts"
      by (auto simp: Let_def)
    show ?thesis
    proof (cases "?g t = []")
      case True
      then show ?thesis using eq Cons by simp
    next
      case nonempty: False
      with False have "?g t \<in> set res" by simp
      then have "remdups (rev (filter (\<lambda>t. t \<noteq> []) (map ?g ts)) @ ?g t # rev res)
        = remdups (rev (filter (\<lambda>t. t \<noteq> []) (map ?g ts)) @ rev res)"
        by (intro remdups_skip) simp
      then show ?thesis using eq Cons nonempty by simp
    qed
  qed
qed

lemma splitText_distinct: "distinct (splitText s)"
  unfolding splitText_def using splitText_loop_keeps [of "[]"] by simp

lemma splitText_nonempty: "[] \<notin> set (splitText s)"
  unfolding splitText_def using splitText_loop_keeps [of "[]"] by simp

lemma splitText_example: "splitText ''a//b/c/a'' = [''a/b'', ''c'', ''a'']"
  by code_simp

text \<open>
  Claim C3, as the code has it. With the delimiter \<open>/\<close>, \<open>splitText("a//b/c/a")\<close> is
  the list \<open>["a/b", "c", "a"]\<close>: the doubled delimiter becomes one literal delimiter
  inside the first item, and the last item \<open>"a"\<close> stays, since it differs from
  \<open>"a/b"\<close>. For every text the result has no duplicate and no empty entry, and it lists
  the stripped, unescaped pieces in the order in which each is first seen.
\<close>

theorem splitText_first_seen_order:
  "splitText ''a//b/c/a'' = [''a/b'', ''c'', ''a'']
   \<and> distinct (splitText s) \<and> [] \<notin> set (splitText s)
   \<and> splitText s =
       rev (remdups (rev (filter (\<lambda>t. t \<noteq> [])
         (map splitText_item
            (py_split editSep (py_replace (editSep @ editSep) [CHR 0x00] s))))))"
proof -
  have "splitText s =
       rev (remdups (rev (filter (\<lambda>t. t \<noteq> [])
         (map splitText_item
            (py_split editSep (py_replace (editSep @ editSep) [CHR 0x00] s))))))"
    unfolding splitText_def using splitText_loop_first_seen [of "[]"] by simp
  then show ?thesis
    using splitText_example splitText_distinct splitText_nonempty by blast
qed

text \<open>
  The list that claim C3 states, \<open>["a/b", "c"]\<close>, is not what \<open>splitText\<close> returns on
  \<open>"a//b/c/a"\<close>.
\<close>

theorem splitText_claimed_list_counterexample:
  "splitText ''a//b/c/a'' \<noteq> [''a/b'', ''c'']"
  by code_simp

section \<open>Combination fields store selections in declared order\<close>

lemma sortedSelections_subseq:
  "subseq (fst (sortedSelections f t)) (choiceList f)"
  by (simp add: sortedSelections_def Let_def)

lemma sortedSelections_valid:
  assumes "distinct (choiceList f)" and "set (splitText t) \<subseteq> set (choiceList f)"
  shows "sortedSelections f t =
           (filter (\<lambda>c. c \<in> set (splitText t)) (choiceList f), True)"
    and "set (filter (\<lambda>c. c \<in> set (splitText t)) (choiceList f)) = set (splitText t)"
proof -
  let ?r = "filter (\<lambda>c. c \<in> set (splitText t)) (choiceList f)"
  show s: "set ?r = set (splitText t)" using assms(2) by auto
  have "distinct ?r" using assms(1) by simp
  then have "card (set ?r) = length ?r" by (rule distinct_card)
  then have "card (set (splitText t)) = length ?r" unfolding s .
  then show "sortedSelections f t = (?r, True)"
    unfolding sortedSelections_def Let_def by (simp only: simp_thms)
qed

lemma CombinationField_setFormat_choices:
  "choiceList (CombinationField_setFormat f0 fmt) =
     splitText (if evalHtml f0 then fmt else escape fmt)"
  "choices (CombinationField_setFormat f0 fmt) = set (choiceList (CombinationField_setFormat f0 fmt))"
  "evalHtml (CombinationField_setFormat f0 fmt) = evalHtml f0"
  "typeName (CombinationField_setFormat f0 fmt) = typeName f0"
  by (simp_all add: CombinationField_setFormat_def TextField_setFormat_def Let_def)

lemma xyz_example: "storedText ext xyzField ''z/x'' = Inr ''x/z''"
proof -
  have "CombinationField_storedText xyzField ''z/x'' = Inr ''x/z''" by code_simp
  moreover have "typeName xyzField = CombinationField"
    by (simp add: xyzField_def CombinationField_setFormat_choices)
  ultimately show ?thesis by (simp add: storedText_def)
qed

text \<open>
  Claim C2. For the Combination field with the declared choices \<open>x/y/z\<close>, the editor
  input \<open>z/x\<close> is stored as \<open>x/z\<close>. In general, for a Combination field whose format
  was installed by \<open>setFormat\<close> and an editor input whose selections are a subset of the
  declared choices, \<open>storedText\<close> joins a list \<open>r\<close> that holds exactly the selections and
  is a subsequence of the declared choice list: the stored order is the declared order,
  whatever the input order was.
\<close>

theorem Combination_storedText_declared_order:
  assumes "typeName f0 = CombinationField"
    and "f = CombinationField_setFormat f0 fmt"
    and "set (splitText (if evalHtml f then e else escape e)) \<subseteq> choices f"
  shows "storedText ext xyzField ''z/x'' = Inr ''x/z''
     \<and> (\<exists>r. storedText ext f e = Inr (joinText r) \<and> subseq r (choiceList f)
           \<and> set r = set (splitText (if evalHtml f then e else escape e)))"
proof -
  let ?t = "if evalHtml f then e else escape e"
  let ?r = "filter (\<lambda>c. c \<in> set (splitText ?t)) (choiceList f)"
  have d: "distinct (choiceList f)"
    using assms(2) by (simp add: CombinationField_setFormat_choices splitText_distinct)
  have sub: "set (splitText ?t) \<subseteq> set (choiceList f)"
    using assms(2,3) by (simp add: CombinationField_setFormat_choices)
  note v = sortedSelections_valid [OF d sub]
  have ty: "typeName f = CombinationField"
    using assms(1,2) by (simp add: CombinationField_setFormat_choices)
  have "storedText ext f e = Inr (joinText ?r)"
    using v(1) ty
    by (cases "evalHtml f") (simp_all add: storedText_def CombinationField_storedText_def Let_def)
  moreover have "subseq ?r (choiceList f)" by simp
  ultimately show ?thesis using v(2) xyz_example by blast
qed

text \<open>The theorem at the field \<open>x/y/z\<close> and the input \<open>z/x\<close>.\<close>

theorem Combination_storedText_declared_order_witness:
  "typeName ((newTextField ''Sel'')\<lparr>typeName := CombinationField\<rparr>) = CombinationField
   \<and> set (splitText (if evalHtml xyzField then ''z/x'' else escape ''z/x'')) \<subseteq> choices xyzField
   \<and> storedText sample_services xyzField ''z/x'' = Inr ''x/z''
   \<and> (\<exists>r. storedText sample_services xyzField ''z/x'' = Inr (joinText r)
          \<and> subseq r (choiceList xyzField)
          \<and> set r = set (splitText (if evalHtml xyzField then ''z/x'' else escape ''z/x'')))"
proof -
  have t: "typeName ((newTextField ''Sel'')\<lparr>typeName := CombinationField\<rparr>) = CombinationField"
    by simp
  have s: "set (splitText (if evalHtml xyzField then ''z/x'' else escape ''z/x'')) \<subseteq> choices xyzField"
    by code_simp
  from Combination_storedText_declared_order [OF t xyzField_def s, of sample_services] t s
  show ?thesis by blast
qed

section \<open>The empty text is always accepted\<close>

lemma escape_Nil: "escape [] = []" by (simp add: escape_def)
lemma unescape_Nil: "unescape [] = []" by (simp add: unescape_def)
lemma splitText_Nil: "splitText [] = []" by code_simp
lemma joinText_Nil: "joinText [] = []" by (simp add: joinText_def)
lemma sortedSelections_Nil: "sortedSelections f [] = ([], True)"
  by (simp add: sortedSelections_def splitText_Nil)

text \<open>
  Claim C10. For a Number, Boolean, Choice, Combination or RegularExpression field,
  \<open>storedText('')\<close> and \<open>formatEditorText('')\<close> both return the empty text and raise
  nothing, whatever the declared choices and the format are (a RegularExpression field
  holds a format that compiles, as its \<open>setFormat\<close> ensures).
\<close>

theorem empty_text_accepted:
  assumes "typeName f \<in> {NumberField, BooleanField, ChoiceField, CombinationField,
             RegularExpressionField}"
    and "typeName f = RegularExpressionField \<Longrightarrow> re_compile ext (format f)"
  shows "storedText ext f [] = Inr [] \<and> formatEditorText ext f [] = Inr []"
  using assms
  by (auto simp: storedText_def formatEditorText_def NumberField_storedText_def
      NumberField_formatEditorText_def BooleanField_storedText_def
      BooleanField_formatEditorText_def ChoiceField_storedText_def
      ChoiceField_formatEditorText_def CombinationField_storedText_def
      CombinationField_formatEditorText_def RegularExpressionField_storedText_def
      RegularExpressionField_formatEditorText_def escape_Nil unescape_Nil splitText_Nil
      joinText_Nil sortedSelections_Nil Let_def)

text \<open>
  The theorem at a Choice field whose choices do not hold the empty text, and at a
  RegularExpression field whose format \<open>a\<close> does not match the empty text.
\<close>

theorem empty_text_accepted_witness:
  "[] \<notin> choices choice1234 \<and> \<not> re_match sample_services (format (regexField ''a'')) []
   \<and> storedText sample_services choice1234 [] = Inr []
   \<and> formatEditorText sample_services choice1234 [] = Inr []
   \<and> storedText sample_services (regexField ''a'') [] = Inr []
   \<and> formatEditorText sample_services (regexField ''a'') [] = Inr []"
proof -
  have c: "typeName choice1234 \<in> {NumberField, BooleanField, ChoiceField, CombinationField,
             RegularExpressionField}" by code_simp
  have r: "typeName (regexField ''a'') \<in> {NumberField, BooleanField, ChoiceField,
             CombinationField, RegularExpressionField}" by code_simp
  have rc: "re_compile sample_services (format (regexField ''a''))" by code_simp
  have n1: "[] \<notin> choices choice1234" by code_simp
  have n2: "\<not> re_match sample_services (format (regexField ''a'')) []" by code_simp
  have "typeName choice1234 \<noteq> RegularExpressionField" by code_simp
  with empty_text_accepted [OF c, of sample_services]
    empty_text_accepted [OF r, of sample_services] rc n1 n2
  show ?thesis by blast
qed

section \<open>Sort keys\<close>

lemma rank_less: "str_less ''20_num'' ''80_text''" "\<not> str_less ''80_text'' ''20_num''"
  by code_simp+

text \<open>
  Claim C9. \<open>sortKey\<close> returns the pair of a fixed rank and the field's
  \<open>compareValue\<close>: \<open>20_num\<close> for a Number field, \<open>30_bool\<close> for a Boolean field and
  \<open>80_text\<close> for every other class. So the sort key of a Number field is less than the
  sort key of a Text field, and not the other way round, for all node data and whatever
  the comparison of the values is.
\<close>

theorem sortKey_type_rank:
  assumes "typeName fn = NumberField" and "typeName ft = TextField"
  shows "sortKey ext f d =
           ((case typeName f of NumberField \<Rightarrow> ''20_num'' | BooleanField \<Rightarrow> ''30_bool''
             | _ \<Rightarrow> ''80_text''), compareValue ext f d)
     \<and> key_less val_less (sortKey ext fn d1) (sortKey ext ft d2)
     \<and> \<not> key_less val_less (sortKey ext ft d2) (sortKey ext fn d1)"
proof -
  have "sortKey ext f d =
           ((case typeName f of NumberField \<Rightarrow> ''20_num'' | BooleanField \<Rightarrow> ''30_bool''
             | _ \<Rightarrow> ''80_text''), compareValue ext f d)"
    by (cases "typeName f") (simp_all add: sortKey_def compareValue_def)
  moreover have "fst (sortKey ext fn d1) = ''20_num''" "fst (sortKey ext ft d2) = ''80_text''"
    using assms by (simp_all add: sortKey_def)
  ultimately show ?thesis using rank_less by (simp add: key_less_def)
qed

text \<open>The theorem at a Number field holding \<open>9\<close> and a Text field holding \<open>1\<close>.\<close>

theorem sortKey_type_rank_witness:
  "typeName priceField = NumberField \<and> typeName (newTextField ''Name'') = TextField
   \<and> key_less (\<lambda>a b. False) (sortKey sample_services priceField [''Price'' \<mapsto> ''9''])
        (sortKey sample_services (newTextField ''Name'') [''Name'' \<mapsto> ''1''])"
proof -
  have a: "typeName priceField = NumberField" by code_simp
  have b: "typeName (newTextField ''Name'') = TextField" by code_simp
  from sortKey_type_rank [OF a b] a b show ?thesis by blast
qed

section \<open>formatOutput and the error marker\<close>





section \<open>RegularExpression fields\<close>

text \<open>
  Claim C6 says that \<open>formatEditorText\<close> accepts a non-empty input exactly when the
  format matches at position 0 of the input. With the format \<open>&a\<close> and the stored text
  \<open>&amp;\<close> the format matches the input at position 0, and \<open>formatEditorText\<close>
  raises a \<open>ValueError\<close>: the field does not evaluate HTML, so the match is tried on the
  unescaped text \<open>&\<close>.
\<close>

theorem regex_formatEditorText_counterexample:
  "re_match sample_services (format (regexField ''&a'')) ''&amp;''
   \<and> formatEditorText sample_services (regexField ''&a'') ''&amp;'' = Inl ValueError"
  by code_simp

lemma atoms_match_pieces:
  "atoms_match as s \<longleftrightarrow> (\<exists>ws. list_all2 piece_ok as ws \<and> prefix (concat ws) s)"
proof (induction as s rule: atoms_match.induct)
  case (1 s)
  then show ?case by simp
next
  case (2 a as)
  then show ?case by (auto simp: list_all2_Cons1)
next
  case (3 a as c cs)
  show ?case
  proof
    assume "atoms_match ((a, False) # as) (c # cs)"
    then have ok: "atom_ok a c" and "atoms_match as cs" by simp_all
    with 3 obtain ws where "list_all2 piece_ok as ws" "prefix (concat ws) cs" by blast
    with ok have "list_all2 piece_ok ((a, False) # as) ([c] # ws) \<and> prefix (concat ([c] # ws)) (c # cs)"
      by simp
    then show "\<exists>ws. list_all2 piece_ok ((a, False) # as) ws \<and> prefix (concat ws) (c # cs)" by blast
  next
    assume "\<exists>ws. list_all2 piece_ok ((a, False) # as) ws \<and> prefix (concat ws) (c # cs)"
    then obtain w ws where w: "piece_ok (a, False) w" "list_all2 piece_ok as ws"
      "prefix (w @ concat ws) (c # cs)" by (auto simp: list_all2_Cons1)
    from w(1) obtain x where x: "w = [x]" "atom_ok a x" by (cases w) auto
    with w(3) have "x = c" "prefix (concat ws) cs" by simp_all
    with x w(2) 3 show "atoms_match ((a, False) # as) (c # cs)" by auto
  qed
next
  case (4 a as)
  show ?case
  proof
    assume "atoms_match ((a, True) # as) []"
    with 4 obtain ws where "list_all2 piece_ok as ws" "prefix (concat ws) []" by auto
    then have "list_all2 piece_ok ((a, True) # as) ([] # ws) \<and> prefix (concat ([] # ws)) []"
      by simp
    then show "\<exists>ws. list_all2 piece_ok ((a, True) # as) ws \<and> prefix (concat ws) []" by blast
  next
    assume "\<exists>ws. list_all2 piece_ok ((a, True) # as) ws \<and> prefix (concat ws) []"
    then obtain w ws where w: "list_all2 piece_ok as ws" "prefix (w @ concat ws) []"
      by (auto simp: list_all2_Cons1)
    then have "prefix (concat ws) []" by simp
    with w(1) 4 show "atoms_match ((a, True) # as) []" by auto
  qed
next
  case (5 a as c cs)
  show ?case
  proof
    assume "atoms_match ((a, True) # as) (c # cs)"
    then consider (more) "atom_ok a c" "atoms_match ((a, True) # as) cs"
      | (skip) "atoms_match as (c # cs)" by auto
    then show "\<exists>ws. list_all2 piece_ok ((a, True) # as) ws \<and> prefix (concat ws) (c # cs)"
    proof cases
      case more
      with 5 obtain w ws where w: "piece_ok (a, True) w" "list_all2 piece_ok as ws"
        "prefix (w @ concat ws) cs" by (auto simp: list_all2_Cons1)
      with more(1) have "list_all2 piece_ok ((a, True) # as) ((c # w) # ws)
        \<and> prefix (concat ((c # w) # ws)) (c # cs)" by simp
      then show ?thesis by blast
    next
      case skip
      with 5 obtain ws where "list_all2 piece_ok as ws" "prefix (concat ws) (c # cs)" by auto
      then have "list_all2 piece_ok ((a, True) # as) ([] # ws)
        \<and> prefix (concat ([] # ws)) (c # cs)" by simp
      then show ?thesis by blast
    qed
  next
    assume "\<exists>ws. list_all2 piece_ok ((a, True) # as) ws \<and> prefix (concat ws) (c # cs)"
    then obtain w ws where w: "piece_ok (a, True) w" "list_all2 piece_ok as ws"
      "prefix (w @ concat ws) (c # cs)" by (auto simp: list_all2_Cons1)
    show "atoms_match ((a, True) # as) (c # cs)"
    proof (cases w)
      case Nil
      with w have "list_all2 piece_ok as ws \<and> prefix (concat ws) (c # cs)" by simp
      with 5 have "atoms_match as (c # cs)" by blast
      then show ?thesis by simp
    next
      case (Cons x w')
      with w(3) have xc: "x = c" and p: "prefix (w' @ concat ws) cs" by simp_all
      from Cons w(1) xc have ok: "atom_ok a c" and w': "piece_ok (a, True) w'" by simp_all
      from w' w(2) p have "list_all2 piece_ok ((a, True) # as) (w' # ws)
        \<and> prefix (concat (w' # ws)) cs" by simp
      with 5 have "atoms_match ((a, True) # as) cs" by blast
      with ok show ?thesis by simp
    qed
  qed
qed

lemma atoms_fullmatch_pieces:
  "atoms_fullmatch as s \<longleftrightarrow> (\<exists>ws. list_all2 piece_ok as ws \<and> concat ws = s)"
proof (induction as s rule: atoms_fullmatch.induct)
  case (1 s)
  then show ?case by auto
next
  case (2 a as)
  then show ?case by (auto simp: list_all2_Cons1)
next
  case (3 a as c cs)
  show ?case
  proof
    assume "atoms_fullmatch ((a, False) # as) (c # cs)"
    then have ok: "atom_ok a c" and "atoms_fullmatch as cs" by simp_all
    with 3 obtain ws where "list_all2 piece_ok as ws" "concat ws = cs" by blast
    with ok have "list_all2 piece_ok ((a, False) # as) ([c] # ws) \<and> concat ([c] # ws) = c # cs"
      by simp
    then show "\<exists>ws. list_all2 piece_ok ((a, False) # as) ws \<and> concat ws = c # cs" by blast
  next
    assume "\<exists>ws. list_all2 piece_ok ((a, False) # as) ws \<and> concat ws = c # cs"
    then obtain w ws where w: "piece_ok (a, False) w" "list_all2 piece_ok as ws"
      "w @ concat ws = c # cs" by (auto simp: list_all2_Cons1)
    from w(1) obtain x where x: "w = [x]" "atom_ok a x" by (cases w) auto
    with w(3) have "x = c" "concat ws = cs" by simp_all
    with x w(2) 3 show "atoms_fullmatch ((a, False) # as) (c # cs)" by auto
  qed
next
  case (4 a as)
  show ?case
  proof
    assume "atoms_fullmatch ((a, True) # as) []"
    with 4 obtain ws where "list_all2 piece_ok as ws" "concat ws = []" by auto
    then have "list_all2 piece_ok ((a, True) # as) ([] # ws) \<and> concat ([] # ws) = []"
      by simp
    then show "\<exists>ws. list_all2 piece_ok ((a, True) # as) ws \<and> concat ws = []" by blast
  next
    assume "\<exists>ws. list_all2 piece_ok ((a, True) # as) ws \<and> concat ws = []"
    then obtain w ws where w: "list_all2 piece_ok as ws" "w @ concat ws = []"
      by (auto simp: list_all2_Cons1)
    then have "concat ws = []" by simp
    with w(1) 4 show "atoms_fullmatch ((a, True) # as) []" by auto
  qed
next
  case (5 a as c cs)
  show ?case
  proof
    assume "atoms_fullmatch ((a, True) # as) (c # cs)"
    then consider (more) "atom_ok a c" "atoms_fullmatch ((a, True) # as) cs"
      | (skip) "atoms_fullmatch as (c # cs)" by auto
    then show "\<exists>ws. list_all2 piece_ok ((a, True) # as) ws \<and> concat ws = c # cs"
    proof cases
      case more
      with 5 obtain w ws where w: "piece_ok (a, True) w" "list_all2 piece_ok as ws"
        "w @ concat ws = cs" by (auto simp: list_all2_Cons1)
      with more(1) have "list_all2 piece_ok ((a, True) # as) ((c # w) # ws)
        \<and> concat ((c # w) # ws) = c # cs" by simp
      then show ?thesis by blast
    next
      case skip
      with 5 obtain ws where "list_all2 piece_ok as ws" "concat ws = c # cs" by auto
      then have "list_all2 piece_ok ((a, True) # as) ([] # ws)
        \<and> concat ([] # ws) = c # cs" by simp
      then show ?thesis by blast
    qed
  next
    assume "\<exists>ws. list_all2 piece_ok ((a, True) # as) ws \<and> concat ws = c # cs"
    then obtain w ws where w: "piece_ok (a, True) w" "list_all2 piece_ok as ws"
      "w @ concat ws = c # cs" by (auto simp: list_all2_Cons1)
    show "atoms_fullmatch ((a, True) # as) (c # cs)"
    proof (cases w)
      case Nil
      with w have "list_all2 piece_ok as ws \<and> concat ws = c # cs" by simp
      with 5 have "atoms_fullmatch as (c # cs)" by blast
      then show ?thesis by simp
    next
      case (Cons x w')
      with w(3) have xc: "x = c" and p: "w' @ concat ws = cs" by simp_all
      from Cons w(1) xc have ok: "atom_ok a c" and w': "piece_ok (a, True) w'" by simp_all
      from w' w(2) p have "list_all2 piece_ok ((a, True) # as) (w' # ws)
        \<and> concat (w' # ws) = cs" by simp
      with 5 have "atoms_fullmatch ((a, True) # as) cs" by blast
      with ok show ?thesis by simp
    qed
  qed
qed


lemma with_basic_re_simps:
  "re_compile (with_basic_re ext) = basic_pattern" "re_match (with_basic_re ext) = basic_match"
  by (simp_all add: with_basic_re_def)

lemma basic_match_pieces:
  "basic_match p s \<longleftrightarrow> (\<exists>ws. list_all2 piece_ok (parse_atoms p) ws \<and> prefix (concat ws) s)"
  unfolding basic_match_def by (rule atoms_match_pieces)

lemma regex_storedText_any:
  "typeName f = RegularExpressionField \<Longrightarrow> re_compile ext (format f) \<Longrightarrow> e \<noteq> [] \<Longrightarrow>
   storedText ext f e =
     (if re_match ext (format f) e then Inr (if evalHtml f then e else escape e)
      else Inl ValueError)"
  by (simp add: storedText_def RegularExpressionField_storedText_def)

lemma regex_formatEditorText_any:
  "typeName f = RegularExpressionField \<Longrightarrow> re_compile ext (format f) \<Longrightarrow> e \<noteq> [] \<Longrightarrow>
   formatEditorText ext f e =
     (if re_match ext (format f) (if evalHtml f then e else unescape e)
      then Inr (if evalHtml f then e else unescape e) else Inl ValueError)"
  by (simp add: formatEditorText_def RegularExpressionField_formatEditorText_def Let_def
      unescape_nil_iff)

lemma regex_examples:
  "storedText (with_basic_re ext) (regexField ''ab.*'') ''abXYZextra'' = Inr ''abXYZextra''"
  "storedText (with_basic_re ext) (regexField ''ab'') ''abXYZ'' = Inr ''abXYZ''"
proof -
  have t: "typeName (regexField p) = RegularExpressionField" "format (regexField p) = p"
    "\<not> evalHtml (regexField p)" for p
    by (simp_all add: regexField_def newTextField_def evalHtmlDefault_def)
  have c1: "basic_pattern ''ab.*''" and m1: "basic_match ''ab.*'' ''abXYZextra''"
    and e1: "escape ''abXYZextra'' = ''abXYZextra''" by code_simp+
  have c2: "basic_pattern ''ab''" and m2: "basic_match ''ab'' ''abXYZ''"
    and e2: "escape ''abXYZ'' = ''abXYZ''" by code_simp+
  have c1': "re_compile (with_basic_re ext) (format (regexField ''ab.*''))"
    unfolding with_basic_re_simps t by (rule c1)
  have c2': "re_compile (with_basic_re ext) (format (regexField ''ab''))"
    unfolding with_basic_re_simps t by (rule c2)
  have n1: "''abXYZextra'' \<noteq> []" and n2: "''abXYZ'' \<noteq> []" by simp_all
  show "storedText (with_basic_re ext) (regexField ''ab.*'') ''abXYZextra'' = Inr ''abXYZextra''"
    unfolding regex_storedText_any [OF t(1) c1' n1]
    by (simp only: with_basic_re_simps t m1 e1 if_True if_False)
  show "storedText (with_basic_re ext) (regexField ''ab'') ''abXYZ'' = Inr ''abXYZ''"
    unfolding regex_storedText_any [OF t(1) c2' n2]
    by (simp only: with_basic_re_simps t m2 e2 if_True if_False)
qed

text \<open>
  Claim C6, amended. For a RegularExpression field and a non-empty input: with a format
  that compiles, \<open>storedText\<close> accepts the input exactly when \<open>re.match\<close> finds a match
  of the format in the input, and \<open>formatEditorText\<close> accepts it exactly when \<open>re.match\<close>
  finds one in the input as the field reads it: unescaped, unless the field evaluates
  HTML. \<open>re.match\<close> anchors the match at position 0 and not at the end: for a format
  built from ordinary characters, the dot and the star, the input is accepted exactly
  when some prefix of it is described by the format, and rejected with a
  \<open>ValueError\<close> otherwise. So the format \<open>ab.*\<close> accepts the editor text \<open>abXYZextra\<close>,
  and the format \<open>ab\<close> accepts \<open>abXYZ\<close>, which it does not describe as a whole.
\<close>

theorem regex_accepts_prefix_match:
  assumes "typeName f = RegularExpressionField" and "e \<noteq> []"
  shows "(re_compile ext (format f) \<longrightarrow>
            ((\<exists>t. storedText ext f e = Inr t) \<longleftrightarrow> re_match ext (format f) e)
          \<and> ((\<exists>t. formatEditorText ext f e = Inr t) \<longleftrightarrow>
                re_match ext (format f) (if evalHtml f then e else unescape e)))
     \<and> (basic_pattern (format f) \<longrightarrow>
            storedText (with_basic_re ext) f e =
              (if \<exists>ws. list_all2 piece_ok (parse_atoms (format f)) ws \<and> prefix (concat ws) e
               then Inr (if evalHtml f then e else escape e) else Inl ValueError)
          \<and> formatEditorText (with_basic_re ext) f e =
              (if \<exists>ws. list_all2 piece_ok (parse_atoms (format f)) ws
                     \<and> prefix (concat ws) (if evalHtml f then e else unescape e)
               then Inr (if evalHtml f then e else unescape e) else Inl ValueError))
     \<and> storedText (with_basic_re ext) (regexField ''ab.*'') ''abXYZextra'' = Inr ''abXYZextra''
     \<and> storedText (with_basic_re ext) (regexField ''ab'') ''abXYZ'' = Inr ''abXYZ''
     \<and> \<not> (\<exists>ws. list_all2 piece_ok (parse_atoms ''ab'') ws \<and> concat ws = ''abXYZ'')"
proof -
  have a: "re_compile ext (format f) \<longrightarrow>
            ((\<exists>t. storedText ext f e = Inr t) \<longleftrightarrow> re_match ext (format f) e)
          \<and> ((\<exists>t. formatEditorText ext f e = Inr t) \<longleftrightarrow>
                re_match ext (format f) (if evalHtml f then e else unescape e))"
    using assms by (simp add: regex_storedText_any regex_formatEditorText_any)
  have b: "basic_pattern (format f) \<longrightarrow>
            storedText (with_basic_re ext) f e =
              (if \<exists>ws. list_all2 piece_ok (parse_atoms (format f)) ws \<and> prefix (concat ws) e
               then Inr (if evalHtml f then e else escape e) else Inl ValueError)
          \<and> formatEditorText (with_basic_re ext) f e =
              (if \<exists>ws. list_all2 piece_ok (parse_atoms (format f)) ws
                     \<and> prefix (concat ws) (if evalHtml f then e else unescape e)
               then Inr (if evalHtml f then e else unescape e) else Inl ValueError)"
  proof
    assume bp: "basic_pattern (format f)"
    then have c: "re_compile (with_basic_re ext) (format f)" by (simp add: with_basic_re_simps)
    show "storedText (with_basic_re ext) f e =
              (if \<exists>ws. list_all2 piece_ok (parse_atoms (format f)) ws \<and> prefix (concat ws) e
               then Inr (if evalHtml f then e else escape e) else Inl ValueError)
          \<and> formatEditorText (with_basic_re ext) f e =
              (if \<exists>ws. list_all2 piece_ok (parse_atoms (format f)) ws
                     \<and> prefix (concat ws) (if evalHtml f then e else unescape e)
               then Inr (if evalHtml f then e else unescape e) else Inl ValueError)"
      unfolding regex_storedText_any [OF assms(1) c assms(2)]
        regex_formatEditorText_any [OF assms(1) c assms(2)]
        with_basic_re_simps basic_match_pieces by (intro conjI refl)
  qed
  have "\<not> atoms_fullmatch (parse_atoms ''ab'') ''abXYZ''" by code_simp
  then have d: "\<not> (\<exists>ws. list_all2 piece_ok (parse_atoms ''ab'') ws \<and> concat ws = ''abXYZ'')"
    unfolding atoms_fullmatch_pieces .
  from a b regex_examples [of ext] d show ?thesis by blast
qed

text \<open>
  The theorem at the format \<open>ab\<close> and the text \<open>abXYZ\<close>: the pieces \<open>a\<close> and \<open>b\<close> make
  up the prefix \<open>ab\<close>.
\<close>

theorem regex_accepts_prefix_match_witness:
  "typeName (regexField ''ab'') = RegularExpressionField
   \<and> re_compile sample_services (format (regexField ''ab''))
   \<and> basic_pattern (format (regexField ''ab''))
   \<and> re_match sample_services (format (regexField ''ab'')) ''abXYZ''
   \<and> (\<exists>t. storedText sample_services (regexField ''ab'') ''abXYZ'' = Inr t)
   \<and> (\<exists>t. formatEditorText sample_services (regexField ''ab'') ''abXYZ'' = Inr t)
   \<and> list_all2 piece_ok (parse_atoms (format (regexField ''ab''))) [''a'', ''b'']
   \<and> prefix (concat [''a'', ''b'']) ''abXYZ''
   \<and> storedText (with_basic_re sample_services) (regexField ''ab'') ''abXYZ'' = Inr ''abXYZ''
   \<and> formatEditorText (with_basic_re sample_services) (regexField ''ab'') ''abXYZ''
       = Inr ''abXYZ''
   \<and> storedText sample_services (regexField ''ab.*'') ''abXYZextra'' = Inr ''abXYZextra''"
proof -
  have t: "typeName (regexField ''ab'') = RegularExpressionField" by code_simp
  have c: "re_compile sample_services (format (regexField ''ab''))" by code_simp
  have bp: "basic_pattern (format (regexField ''ab''))" by code_simp
  have n: "''abXYZ'' \<noteq> []" by simp
  have m: "re_match sample_services (format (regexField ''ab'')) ''abXYZ''" by code_simp
  have m2: "re_match sample_services (format (regexField ''ab''))
     (if evalHtml (regexField ''ab'') then ''abXYZ'' else unescape ''abXYZ'')" by code_simp
  have p: "list_all2 piece_ok (parse_atoms (format (regexField ''ab''))) [''a'', ''b'']"
    by code_simp
  have q: "prefix (concat [''a'', ''b'']) ''abXYZ''" by code_simp
  have q2: "prefix (concat [''a'', ''b''])
      (if evalHtml (regexField ''ab'') then ''abXYZ'' else unescape ''abXYZ'')" by code_simp
  have v: "(if evalHtml (regexField ''ab'') then ''abXYZ'' else escape ''abXYZ'') = ''abXYZ''"
    "(if evalHtml (regexField ''ab'') then ''abXYZ'' else unescape ''abXYZ'') = ''abXYZ''"
    by code_simp+
  have s: "with_basic_re sample_services = sample_services"
    by (simp add: with_basic_re_def sample_services_def)
  note th = regex_accepts_prefix_match [OF t n, where ext = sample_services]
  from th c m m2 have a: "(\<exists>t. storedText sample_services (regexField ''ab'') ''abXYZ'' = Inr t)"
    "(\<exists>t. formatEditorText sample_services (regexField ''ab'') ''abXYZ'' = Inr t)"
    by blast+
  from p q have ex1: "\<exists>ws. list_all2 piece_ok (parse_atoms (format (regexField ''ab''))) ws
      \<and> prefix (concat ws) ''abXYZ''" by blast
  from p q2 have ex2: "\<exists>ws. list_all2 piece_ok (parse_atoms (format (regexField ''ab''))) ws
      \<and> prefix (concat ws)
           (if evalHtml (regexField ''ab'') then ''abXYZ'' else unescape ''abXYZ'')" by blast
  from th [THEN conjunct2, THEN conjunct1, rule_format, OF bp, THEN conjunct1] ex1 v(1)
  have b1: "storedText (with_basic_re sample_services) (regexField ''ab'') ''abXYZ''
      = Inr ''abXYZ''" by simp
  from th [THEN conjunct2, THEN conjunct1, rule_format, OF bp, THEN conjunct2] ex2 v(2)
  have b2: "formatEditorText (with_basic_re sample_services) (regexField ''ab'') ''abXYZ''
      = Inr ''abXYZ''" by simp
  from th have x: "storedText (with_basic_re sample_services) (regexField ''ab.*'') ''abXYZextra''
      = Inr ''abXYZextra''" by blast
  from t c bp m a p q b1 b2 x show ?thesis unfolding s by blast
qed

section \<open>storedText and formatEditorText as inverses\<close>



subsection \<open>splitText after joinText\<close>

















































subsection \<open>The round trip by class\<close>










section \<open>extractTitleData: the pattern match\<close>

lemma titlePattern_map:
  "titlePattern segs = map (\<lambda>seg. case seg of FieldSeg f \<Rightarrow> Group | TextSeg t \<Rightarrow> Literal t) segs"
  by (induction segs rule: titlePattern.induct) simp_all

text \<open>
  Claim C4 says that field values are extracted only when the pattern matches the whole
  title string. The code calls \<open>re.match\<close>, which anchors the match at position 0 only.
  Counterexample to claim C4 as stated: with the title line \<open>{*Name*} end\<close> and the title
  \<open>foo end bar\<close>, the pattern does not match the whole title, it matches the proper prefix
  \<open>foo end\<close>, and the match path assigns \<open>foo\<close> to \<open>Name\<close> and returns True.
\<close>

theorem extractTitleData_full_match_counterexample:
  "re_fullmatch_title (titlePattern nameEndTitle) ''foo end bar'' = None
   \<and> re_match_title (titlePattern nameEndTitle) ''foo end bar'' = Some [''foo'']
   \<and> fst (extractTitleData sample_services nameEndTitle ''foo end bar'' Map.empty)
       = Returns True
   \<and> snd (extractTitleData sample_services nameEndTitle ''foo end bar'' Map.empty) ''Name''
       = Some ''foo''"
  by code_simp

text \<open>
  Claim C4, amended. The pattern has a group \<open>(.*)\<close> for each field segment and the
  escaped text for each literal segment. It matches exactly when some prefix of the title
  string is the literal segments with line-break-free texts filled in for the groups, one
  for each field; and whenever it matches, whatever follows the matched prefix, the result
  of \<open>extractTitleData\<close> is that of assigning the groups to the fields in order.
\<close>

theorem extractTitleData_prefix_match:
  "titlePattern segs =
     map (\<lambda>seg. case seg of FieldSeg f \<Rightarrow> Group | TextSeg t \<Rightarrow> Literal t) segs
   \<and> (re_match_title (titlePattern segs) s \<noteq> None \<longleftrightarrow>
        (\<exists>gs. length gs = length (titleFields segs) \<and> (\<forall>g\<in>set gs. CHR 0x0A \<notin> set g)
           \<and> prefix (fill (titlePattern segs) gs) s))
   \<and> (\<forall>gs. re_match_title (titlePattern segs) s = Some gs \<longrightarrow>
        extractTitleData ext segs s d = assignGroups ext (titleFields segs) gs d)"
proof -
  have a: "re_match_title (titlePattern segs) s \<noteq> None \<longleftrightarrow>
        (\<exists>gs. length gs = length (titleFields segs) \<and> (\<forall>g\<in>set gs. CHR 0x0A \<notin> set g)
           \<and> prefix (fill (titlePattern segs) gs) s)"
  proof
    assume "re_match_title (titlePattern segs) s \<noteq> None"
    then obtain gs where "re_match_title (titlePattern segs) s = Some gs" by blast
    from re_match_title_sound [OF this] show "\<exists>gs. length gs = length (titleFields segs)
      \<and> (\<forall>g\<in>set gs. CHR 0x0A \<notin> set g) \<and> prefix (fill (titlePattern segs) gs) s"
      by (auto simp: n_groups_title)
  next
    assume "\<exists>gs. length gs = length (titleFields segs) \<and> (\<forall>g\<in>set gs. CHR 0x0A \<notin> set g)
           \<and> prefix (fill (titlePattern segs) gs) s"
    then obtain gs where "length gs = n_groups (titlePattern segs)"
      "\<forall>g\<in>set gs. CHR 0x0A \<notin> set g" "prefix (fill (titlePattern segs) gs) s"
      by (auto simp: n_groups_title)
    then show "re_match_title (titlePattern segs) s \<noteq> None" by (rule re_match_title_complete)
  qed
  have b: "\<forall>gs. re_match_title (titlePattern segs) s = Some gs \<longrightarrow>
        extractTitleData ext segs s d = assignGroups ext (titleFields segs) gs d"
    by (simp add: extractTitleData_def Let_def)
  from a b titlePattern_map show ?thesis by blast
qed

text \<open>The theorem at the title line \<open>{*Name*} end\<close> and the title \<open>foo end bar\<close>.\<close>

theorem extractTitleData_prefix_match_witness:
  "titlePattern nameEndTitle = [Group, Literal '' end'']
   \<and> re_match_title (titlePattern nameEndTitle) ''foo end bar'' = Some [''foo'']
   \<and> (\<exists>gs. length gs = length (titleFields nameEndTitle)
         \<and> (\<forall>g\<in>set gs. CHR 0x0A \<notin> set g)
         \<and> prefix (fill (titlePattern nameEndTitle) gs) ''foo end bar'')
   \<and> extractTitleData sample_services nameEndTitle ''foo end bar'' Map.empty
       = assignGroups sample_services (titleFields nameEndTitle) [''foo''] Map.empty"
proof -
  have p: "titlePattern nameEndTitle = [Group, Literal '' end'']" by code_simp
  have m: "re_match_title (titlePattern nameEndTitle) ''foo end bar'' = Some [''foo'']"
    by code_simp
  note t = extractTitleData_prefix_match
    [where segs = nameEndTitle and s = "''foo end bar''" and ext = sample_services
       and d = Map.empty, THEN conjunct2]
  from t m have e: "\<exists>gs. length gs = length (titleFields nameEndTitle)
         \<and> (\<forall>g\<in>set gs. CHR 0x0A \<notin> set g)
         \<and> prefix (fill (titlePattern nameEndTitle) gs) ''foo end bar''"
    by simp
  from t m have x: "extractTitleData sample_services nameEndTitle ''foo end bar'' Map.empty
       = assignGroups sample_services (titleFields nameEndTitle) [''foo''] Map.empty"
    by simp
  show ?thesis by (rule conjI [OF p conjI [OF m conjI [OF e x]]])
qed

section \<open>extractTitleData: writes before a failure\<close>

text \<open>
  Claim C1 says that the data is unchanged whenever the result is False. The loop over the
  fields writes each converted group to the data as soon as it is converted, so a later
  field that raises leaves the earlier writes in place. Counterexample to claim C1 as
  stated: with the title line \<open>{*Name*}: {*Tag*}\<close>, where \<open>Tag\<close> is a Choice field with
  the choices 1 to 4, the title \<open>Trip: zzz\<close> and empty data, the result is False and
  \<open>Name\<close> is set to \<open>Trip\<close>.
\<close>

theorem extractTitleData_partial_write_counterexample:
  "fst (extractTitleData sample_services nameTagTitle ''Trip: zzz'' Map.empty) = Returns False
   \<and> snd (extractTitleData sample_services nameTagTitle ''Trip: zzz'' Map.empty) ''Name''
       = Some ''Trip''
   \<and> (Map.empty :: data) ''Name'' = None"
  by code_simp

text \<open>
  Claim C1, amended. When \<open>extractTitleData\<close> returns False: if the pattern did not match,
  the data is as it was before the call; if it matched, then the conversion of the group
  of some field \<open>k\<close> raised a ValidationError, the groups of the fields before \<open>k\<close> were
  converted, each of these fields holds its converted group (the one of its last
  occurrence before \<open>k\<close>, where a name repeats), and every key that is not the name of a
  field before \<open>k\<close> is as it was before the call.
\<close>

theorem extractTitleData_failure_writes:
  assumes "extractTitleData ext segs s d = (Returns False, d')"
  shows "(re_match_title (titlePattern segs) s = None \<longrightarrow> d' = d)
     \<and> (\<forall>gs. re_match_title (titlePattern segs) s = Some gs \<longrightarrow>
          (\<exists>k. k < length (titleFields segs)
             \<and> storedTextFromTitle ext (titleFields segs ! k) (gs ! k) = Inl ValueError
             \<and> (\<forall>i<k. \<exists>t. storedTextFromTitle ext (titleFields segs ! i) (gs ! i) = Inr t
                   \<and> ((\<forall>j. i < j \<and> j < k \<longrightarrow>
                          name (titleFields segs ! j) \<noteq> name (titleFields segs ! i))
                        \<longrightarrow> d' (name (titleFields segs ! i)) = Some t))
             \<and> (\<forall>key. (\<forall>i<k. name (titleFields segs ! i) \<noteq> key) \<longrightarrow> d' key = d key)))"
proof (cases "re_match_title (titlePattern segs) s")
  case None
  with assms have "d' = d"
    by (auto simp: extractTitleData_def Let_def split: if_splits list.splits sum.splits)
  with None show ?thesis by simp
next
  case (Some gs)
  let ?fs = "titleFields segs"
  from Some assms have "assignGroups ext ?fs gs d = (Returns False, d')"
    by (simp add: extractTitleData_def Let_def)
  from assignGroups_False [OF this] obtain k where k: "k < length ?fs" "k < length gs"
    "storedTextFromTitle ext (?fs ! k) (gs ! k) = Inl ValueError"
    "assignGroups ext (take k ?fs) (take k gs) d = (Returns True, d')" by blast
  note w = assignGroups_True_writes [OF k(4)]
  have lk: "length (take k ?fs) = k" using k(1) by simp
  have a: "\<forall>i<k. \<exists>t. storedTextFromTitle ext (?fs ! i) (gs ! i) = Inr t
                   \<and> ((\<forall>j. i < j \<and> j < k \<longrightarrow> name (?fs ! j) \<noteq> name (?fs ! i))
                        \<longrightarrow> d' (name (?fs ! i)) = Some t)"
  proof (intro allI impI)
    fix i assume i: "i < k"
    have il: "i < length (take k ?fs)" using i k(1) by simp
    from w have w1: "\<forall>i<length (take k ?fs). \<exists>t.
        storedTextFromTitle ext (take k ?fs ! i) (take k gs ! i) = Inr t
        \<and> ((\<forall>j. i < j \<and> j < length (take k ?fs) \<longrightarrow>
               name (take k ?fs ! j) \<noteq> name (take k ?fs ! i))
             \<longrightarrow> d' (name (take k ?fs ! i)) = Some t)" by (rule conjunct1)
    from w1 il obtain t where t: "storedTextFromTitle ext (take k ?fs ! i) (take k gs ! i) = Inr t"
      "(\<forall>j. i < j \<and> j < length (take k ?fs) \<longrightarrow> name (take k ?fs ! j) \<noteq> name (take k ?fs ! i))
             \<longrightarrow> d' (name (take k ?fs ! i)) = Some t" by blast
    have ni: "take k ?fs ! i = ?fs ! i" "take k gs ! i = gs ! i" using i by simp_all
    have "(\<forall>j. i < j \<and> j < k \<longrightarrow> name (?fs ! j) \<noteq> name (?fs ! i))
                        \<longrightarrow> d' (name (?fs ! i)) = Some t"
    proof
      assume h: "\<forall>j. i < j \<and> j < k \<longrightarrow> name (?fs ! j) \<noteq> name (?fs ! i)"
      have "\<forall>j. i < j \<and> j < length (take k ?fs) \<longrightarrow> name (take k ?fs ! j) \<noteq> name (take k ?fs ! i)"
      proof (intro allI impI)
        fix j assume j: "i < j \<and> j < length (take k ?fs)"
        then have jk: "j < k" by simp
        then have "take k ?fs ! j = ?fs ! j" by simp
        with h j jk ni show "name (take k ?fs ! j) \<noteq> name (take k ?fs ! i)" by simp
      qed
      with t(2) ni show "d' (name (?fs ! i)) = Some t" by simp
    qed
    with t(1) ni show "\<exists>t. storedTextFromTitle ext (?fs ! i) (gs ! i) = Inr t
                   \<and> ((\<forall>j. i < j \<and> j < k \<longrightarrow> name (?fs ! j) \<noteq> name (?fs ! i))
                        \<longrightarrow> d' (name (?fs ! i)) = Some t)" by simp
  qed
  have b: "\<forall>key. (\<forall>i<k. name (?fs ! i) \<noteq> key) \<longrightarrow> d' key = d key"
  proof (intro allI impI)
    fix key assume h: "\<forall>i<k. name (?fs ! i) \<noteq> key"
    have "key \<notin> name ` set (take k ?fs)"
    proof
      assume "key \<in> name ` set (take k ?fs)"
      then obtain x where "x \<in> set (take k ?fs)" "name x = key" by auto
      then obtain i where i: "i < length (take k ?fs)" "take k ?fs ! i = x"
        unfolding in_set_conv_nth by blast
      from i(1) have ik: "i < k" by simp
      then have "take k ?fs ! i = ?fs ! i" by simp
      with h ik i(2) \<open>name x = key\<close> show False by auto
    qed
    with w show "d' key = d key" by blast
  qed
  have c: "\<exists>k. k < length ?fs
             \<and> storedTextFromTitle ext (?fs ! k) (gs ! k) = Inl ValueError
             \<and> (\<forall>i<k. \<exists>t. storedTextFromTitle ext (?fs ! i) (gs ! i) = Inr t
                   \<and> ((\<forall>j. i < j \<and> j < k \<longrightarrow> name (?fs ! j) \<noteq> name (?fs ! i))
                        \<longrightarrow> d' (name (?fs ! i)) = Some t))
             \<and> (\<forall>key. (\<forall>i<k. name (?fs ! i) \<noteq> key) \<longrightarrow> d' key = d key)"
    by (rule exI [of _ k]) (rule conjI [OF k(1) conjI [OF k(3) conjI [OF a b]]])
  show ?thesis
  proof (intro conjI allI impI)
    assume "re_match_title (titlePattern segs) s = None"
    with Some show "d' = d" by simp
  next
    fix gs' assume "re_match_title (titlePattern segs) s = Some gs'"
    with Some have "gs' = gs" by simp
    with c show "\<exists>k. k < length ?fs
             \<and> storedTextFromTitle ext (?fs ! k) (gs' ! k) = Inl ValueError
             \<and> (\<forall>i<k. \<exists>t. storedTextFromTitle ext (?fs ! i) (gs' ! i) = Inr t
                   \<and> ((\<forall>j. i < j \<and> j < k \<longrightarrow> name (?fs ! j) \<noteq> name (?fs ! i))
                        \<longrightarrow> d' (name (?fs ! i)) = Some t))
             \<and> (\<forall>key. (\<forall>i<k. name (?fs ! i) \<noteq> key) \<longrightarrow> d' key = d key)"
      by simp
  qed
qed

text \<open>
  The theorem at the title line \<open>{*Name*}: {*Tag*}\<close>, the title \<open>Trip: zzz\<close> and empty
  data: the field that fails is the second one, and \<open>Name\<close> holds \<open>Trip\<close> afterwards.
\<close>

theorem extractTitleData_failure_writes_witness:
  "fst (extractTitleData sample_services nameTagTitle ''Trip: zzz'' Map.empty) = Returns False
   \<and> re_match_title (titlePattern nameTagTitle) ''Trip: zzz'' = Some [''Trip'', ''zzz'']
   \<and> storedTextFromTitle sample_services (titleFields nameTagTitle ! 0) ''Trip'' = Inr ''Trip''
   \<and> storedTextFromTitle sample_services (titleFields nameTagTitle ! 1) ''zzz'' = Inl ValueError
   \<and> snd (extractTitleData sample_services nameTagTitle ''Trip: zzz'' Map.empty) ''Name''
       = Some ''Trip''
   \<and> snd (extractTitleData sample_services nameTagTitle ''Trip: zzz'' Map.empty) ''Other''
       = None"
proof -
  define fs where "fs = titleFields nameTagTitle"
  define d' where "d' = snd (extractTitleData sample_services nameTagTitle ''Trip: zzz'' Map.empty)"
  define gs where "gs = [''Trip'', ''zzz'']"
  have f: "fst (extractTitleData sample_services nameTagTitle ''Trip: zzz'' Map.empty)
      = Returns False" by code_simp
  have m: "re_match_title (titlePattern nameTagTitle) ''Trip: zzz'' = Some gs"
    unfolding gs_def by code_simp
  have c0: "storedTextFromTitle sample_services (fs ! 0) (gs ! 0) = Inr ''Trip''"
    unfolding fs_def gs_def by code_simp
  have c1: "storedTextFromTitle sample_services (fs ! 1) (gs ! 1) = Inl ValueError"
    unfolding fs_def gs_def by code_simp
  have l: "length fs = 2" unfolding fs_def by code_simp
  have n: "name (fs ! 0) = ''Name''" unfolding fs_def by code_simp
  have ne: "''Name'' \<noteq> ''Other''" by simp
  from f have h: "extractTitleData sample_services nameTagTitle ''Trip: zzz'' Map.empty
      = (Returns False, d')"
    unfolding d'_def by (simp add: prod_eq_iff)
  from extractTitleData_failure_writes [OF h, THEN conjunct2, rule_format, OF m]
  obtain k where k: "k < length fs"
    "storedTextFromTitle sample_services (fs ! k) (gs ! k) = Inl ValueError"
    "\<forall>i<k. \<exists>t. storedTextFromTitle sample_services (fs ! i) (gs ! i) = Inr t
         \<and> ((\<forall>j. i < j \<and> j < k \<longrightarrow> name (fs ! j) \<noteq> name (fs ! i))
               \<longrightarrow> d' (name (fs ! i)) = Some t)"
    "\<forall>key. (\<forall>i<k. name (fs ! i) \<noteq> key) \<longrightarrow> d' key = Map.empty key"
    unfolding fs_def by blast
  have k1: "k = 1"
  proof (rule ccontr)
    assume "k \<noteq> 1"
    with k(1) l have "k = 0" by simp
    with k(2) c0 show False by simp
  qed
  from k(3) k1 have "\<exists>t. storedTextFromTitle sample_services (fs ! 0) (gs ! 0) = Inr t
         \<and> ((\<forall>j. 0 < j \<and> j < 1 \<longrightarrow> name (fs ! j) \<noteq> name (fs ! 0))
               \<longrightarrow> d' (name (fs ! 0)) = Some t)" by simp
  then obtain t where t: "storedTextFromTitle sample_services (fs ! 0) (gs ! 0) = Inr t"
    "(\<forall>j. 0 < (j::nat) \<and> j < 1 \<longrightarrow> name (fs ! j) \<noteq> name (fs ! 0))
               \<longrightarrow> d' (name (fs ! 0)) = Some t" by blast
  from t(1) c0 have "t = ''Trip''" by simp
  moreover have "\<forall>j. 0 < (j::nat) \<and> j < 1 \<longrightarrow> name (fs ! j) \<noteq> name (fs ! 0)" by auto
  ultimately have a: "d' ''Name'' = Some ''Trip''" using t(2) n by simp
  have "\<forall>i<k. name (fs ! i) \<noteq> ''Other''" using k1 n ne by simp
  with k(4) have b: "d' ''Other'' = None" by simp
  from f m c0 c1 a b show ?thesis unfolding fs_def d'_def gs_def by simp
qed

section \<open>extractTitleData: the whitespace fallback\<close>

text \<open>
  Claim C5 says that the fallback always returns True. The conversion of the title by the
  first field may raise a ValidationError, and then the result is False. Counterexample to
  claim C5 as stated: with the title line \<open>{*Tag*} {*Name*}\<close>, where \<open>Tag\<close> is a Choice
  field with the choices 1 to 4, and the title \<open>zzz\<close>, the title line has a field, its only
  literal text is a space, the pattern does not match, and the result is False.
\<close>

theorem extractTitleData_fallback_counterexample:
  "titleFields tagNameTitle \<noteq> []
   \<and> py_strip (titleExtraText tagNameTitle) = []
   \<and> re_match_title (titlePattern tagNameTitle) ''zzz'' = None
   \<and> fst (extractTitleData sample_services tagNameTitle ''zzz'' Map.empty) = Returns False"
  by code_simp

text \<open>
  Claim C5, amended. For a title line with the fields \<open>f0\<close> and \<open>others\<close>, in this order,
  whose literal segments consist only of whitespace, and a title that the pattern does not
  match: if the first field's \<open>storedTextFromTitle\<close> converts the title to \<open>t\<close>, then
  \<open>extractTitleData\<close> returns True, every other field of the title line holds the empty
  string, the first field holds \<open>t\<close> unless its name is also the name of a later field,
  and no other key changes; if the conversion raises a ValidationError, then the result is
  False and the data is unchanged.
\<close>

theorem extractTitleData_fallback:
  assumes "titleFields segs = f0 # others"
    and "\<forall>t. TextSeg t \<in> set segs \<longrightarrow> (\<forall>c\<in>set t. py_isspace c)"
    and "re_match_title (titlePattern segs) s = None"
  shows "(\<forall>t. storedTextFromTitle ext f0 s = Inr t \<longrightarrow>
            (\<exists>d'. extractTitleData ext segs s d = (Returns True, d')
               \<and> (\<forall>g\<in>set others. d' (name g) = Some [])
               \<and> (name f0 \<notin> name ` set others \<longrightarrow> d' (name f0) = Some t)
               \<and> (\<forall>k. k \<noteq> name f0 \<and> k \<notin> name ` set others \<longrightarrow> d' k = d k)))
      \<and> (storedTextFromTitle ext f0 s = Inl ValueError \<longrightarrow>
            extractTitleData ext segs s d = (Returns False, d))"
proof -
  have "\<forall>c\<in>set (titleExtraText segs). py_isspace c"
  proof
    fix c assume "c \<in> set (titleExtraText segs)"
    then obtain seg where seg: "seg \<in> set segs"
      and c: "c \<in> (case seg of TextSeg s \<Rightarrow> set s | FieldSeg f \<Rightarrow> {})"
      unfolding titleExtraText_set by blast
    show "py_isspace c"
    proof (cases seg)
      case (FieldSeg f)
      with c show ?thesis by simp
    next
      case (TextSeg t)
      with seg have "TextSeg t \<in> set segs" by simp
      with assms(2) have "\<forall>c\<in>set t. py_isspace c" by blast
      with c TextSeg show ?thesis by simp
    qed
  qed
  then have e: "py_strip (titleExtraText segs) = []" by (simp add: py_strip_nil_iff)
  have r: "extractTitleData ext segs s d =
      (case storedTextFromTitle ext f0 s of
         Inl e \<Rightarrow> (if e = ValueError then Returns False else Raises e, d)
       | Inr t \<Rightarrow> (Returns True, clearFields others (d(name f0 \<mapsto> t))))"
    by (simp add: extractTitleData_def Let_def assms(1) assms(3) e)
  show ?thesis
  proof (intro conjI allI impI)
    fix t assume t: "storedTextFromTitle ext f0 s = Inr t"
    have "extractTitleData ext segs s d = (Returns True, clearFields others (d(name f0 \<mapsto> t)))"
      by (simp add: r t)
    moreover have "\<forall>g\<in>set others. clearFields others (d(name f0 \<mapsto> t)) (name g) = Some []"
      by (simp add: clearFields_apply)
    moreover have "name f0 \<notin> name ` set others \<longrightarrow>
        clearFields others (d(name f0 \<mapsto> t)) (name f0) = Some t"
      by (simp add: clearFields_apply)
    moreover have "\<forall>k. k \<noteq> name f0 \<and> k \<notin> name ` set others \<longrightarrow>
        clearFields others (d(name f0 \<mapsto> t)) k = d k"
      by (simp add: clearFields_apply)
    ultimately show "\<exists>d'. extractTitleData ext segs s d = (Returns True, d')
               \<and> (\<forall>g\<in>set others. d' (name g) = Some [])
               \<and> (name f0 \<notin> name ` set others \<longrightarrow> d' (name f0) = Some t)
               \<and> (\<forall>k. k \<noteq> name f0 \<and> k \<notin> name ` set others \<longrightarrow> d' k = d k)"
      by blast
  next
    assume "storedTextFromTitle ext f0 s = Inl ValueError"
    then show "extractTitleData ext segs s d = (Returns False, d)" by (simp add: r)
  qed
qed

text \<open>
  The theorem at the title line \<open>{*Name*} {*Note*}\<close>, the title \<open>HelloWorld\<close> and data
  that holds \<open>x\<close> under the key \<open>Old\<close>.
\<close>

theorem extractTitleData_fallback_witness:
  "titleFields nameNoteTitle = [newTextField ''Name'', newTextField ''Note'']
   \<and> py_strip (titleExtraText nameNoteTitle) = []
   \<and> re_match_title (titlePattern nameNoteTitle) ''HelloWorld'' = None
   \<and> storedTextFromTitle sample_services (newTextField ''Name'') ''HelloWorld''
       = Inr ''HelloWorld''
   \<and> fst (extractTitleData sample_services nameNoteTitle ''HelloWorld'' [''Old'' \<mapsto> ''x''])
       = Returns True
   \<and> snd (extractTitleData sample_services nameNoteTitle ''HelloWorld'' [''Old'' \<mapsto> ''x''])
        ''Name'' = Some ''HelloWorld''
   \<and> snd (extractTitleData sample_services nameNoteTitle ''HelloWorld'' [''Old'' \<mapsto> ''x''])
        ''Note'' = Some []
   \<and> snd (extractTitleData sample_services nameNoteTitle ''HelloWorld'' [''Old'' \<mapsto> ''x''])
        ''Old'' = Some ''x''"
proof -
  have f: "titleFields nameNoteTitle = [newTextField ''Name'', newTextField ''Note'']"
    by code_simp
  have w: "\<forall>t. TextSeg t \<in> set nameNoteTitle \<longrightarrow> (\<forall>c\<in>set t. py_isspace c)"
    by (simp add: nameNoteTitle_def py_isspace_def whitespace_def)
  have e: "py_strip (titleExtraText nameNoteTitle) = []" by code_simp
  have m: "re_match_title (titlePattern nameNoteTitle) ''HelloWorld'' = None" by code_simp
  have c: "storedTextFromTitle sample_services (newTextField ''Name'') ''HelloWorld''
       = Inr ''HelloWorld''" by code_simp
  have n: "name (newTextField ''Name'') = ''Name''" "name (newTextField ''Note'') = ''Note''"
    by code_simp+
  from extractTitleData_fallback [OF f w m, where ext = sample_services
      and d = "[''Old'' \<mapsto> ''x'']"] c
  obtain d' where d': "extractTitleData sample_services nameNoteTitle ''HelloWorld''
        [''Old'' \<mapsto> ''x''] = (Returns True, d')"
      "\<forall>g\<in>set [newTextField ''Note'']. d' (name g) = Some []"
      "name (newTextField ''Name'') \<notin> name ` set [newTextField ''Note''] \<longrightarrow>
         d' (name (newTextField ''Name'')) = Some ''HelloWorld''"
      "\<forall>k. k \<noteq> name (newTextField ''Name'') \<and> k \<notin> name ` set [newTextField ''Note''] \<longrightarrow>
         d' k = [''Old'' \<mapsto> ''x''] k"
    by blast
  from d'(2) n have a: "d' ''Note'' = Some []" by simp
  from d'(3) n have b: "d' ''Name'' = Some ''HelloWorld''" by simp
  from d'(4) [rule_format, of "''Old''"] n have o: "d' ''Old'' = Some ''x''" by simp
  from f e m c d'(1) a b o show ?thesis by simp
qed

end
